theory Spec2Isabelle
  imports Main
begin

section \<open>Values and options\<close>

text \<open>
  \<^verbatim>\<open>OuterType\<close> and \<^verbatim>\<open>InnerType\<close> are both \<^verbatim>\<open>string | null | undefined\<close>.
  Strict equality \<^verbatim>\<open>===\<close> on these values is equality of the datatype.
\<close>

datatype jsval = Undefined | Null | Str string

text \<open>
  The interface \<^verbatim>\<open>AutocompleteOption\<close>. The field \<^verbatim>\<open>value\<close> is written
  \<open>value'\<close>; the optional \<^verbatim>\<open>preferred\<close> is \<open>None\<close> when absent.
\<close>

record AutocompleteOption =
  value' :: string
  label :: string
  preferred :: "bool option"

section \<open>The stream primitives the code is written with\<close>

text \<open>
  What a stream hands to a subscriber that attaches now decides every operator below.
  A stream is described by its kind and by the values it has produced so far:
  a plain \<^verbatim>\<open>Subject\<close> (hot, nothing replayed), a \<^verbatim>\<open>ReplaySubject(n)\<close>
  (the last \<open>max 1 n\<close> values are replayed), and the cold \<^verbatim>\<open>of(...)\<close>, which
  produces all its values to each subscriber.
\<close>

datatype 'a source = Subject "'a list" | ReplaySubject nat "'a list" | Of "'a list"

fun emitted :: "'a source \<Rightarrow> 'a list" where
  "emitted (Subject h) = h"
| "emitted (ReplaySubject n h) = h"
| "emitted (Of xs) = xs"

text \<open>The values delivered synchronously to a new subscriber.\<close>

fun replay :: "'a source \<Rightarrow> 'a list" where
  "replay (Subject h) = []"
| "replay (ReplaySubject n h) = drop (length h - max 1 n) h"
| "replay (Of xs) = xs"

text \<open>\<^verbatim>\<open>subject.next(x)\<close>; a cold \<^verbatim>\<open>of(...)\<close> has no \<^verbatim>\<open>next\<close>.\<close>

fun next_value :: "'a \<Rightarrow> 'a source \<Rightarrow> 'a source" where
  "next_value x (Subject h) = Subject (h @ [x])"
| "next_value x (ReplaySubject n h) = ReplaySubject n (h @ [x])"
| "next_value x (Of xs) = Of xs"

text \<open>
  \<^verbatim>\<open>of(value).pipe(withLatestFrom(...observables))\<close>: the operator subscribes to the
  other streams first, then to \<^verbatim>\<open>of(value)\<close>, which emits once and completes. The
  value is combined with the last value each other stream has delivered by then, and is
  dropped when one of them has delivered nothing. The result is the list of emissions.
\<close>

definition withLatestFrom :: "'v \<Rightarrow> 'a source list \<Rightarrow> ('v \<times> 'a list) list" where
  "withLatestFrom v observables =
     (if list_all (\<lambda>s. replay s \<noteq> []) observables
      then [(v, map (\<lambda>s. last (replay s)) observables)]
      else [])"

text \<open>The factory of \<^verbatim>\<open>concatLatestFrom\<close> returns one stream or an array of streams.\<close>

datatype 'o observables = Single 'o | Many "'o list"

fun observablesAsArray :: "'o observables \<Rightarrow> 'o list" where
  "observablesAsArray (Many os) = os"
| "observablesAsArray (Single o1) = [o1]"

text \<open>
  \<^verbatim>\<open>concatLatestFrom(observablesFactory)\<close>, for one value of the primary stream: the
  emissions of the inner stream \<^verbatim>\<open>concatMap\<close> projects the value to. The inner stream
  completes synchronously, so \<^verbatim>\<open>concatMap\<close> never holds a value back.
\<close>

definition concatLatestFrom :: "('v \<Rightarrow> 'a source observables) \<Rightarrow> 'v \<Rightarrow> ('v \<times> 'a list) list" where
  "concatLatestFrom observablesFactory v =
     (let observables = observablesFactory v;
          observablesAsArray = observablesAsArray observables
      in withLatestFrom v observablesAsArray)"

text \<open>
  A run of the operator over time. The streams live in a store; the factory names the
  ones it returns; an event is a value on the primary stream or a \<^verbatim>\<open>next\<close> on a
  stream of the store.
\<close>

datatype ('v, 'a) event = Primary 'v | Secondary nat 'a

fun map_observables :: "('o \<Rightarrow> 'p) \<Rightarrow> 'o observables \<Rightarrow> 'p observables" where
  "map_observables f (Single o1) = Single (f o1)"
| "map_observables f (Many os) = Many (map f os)"

fun run :: "('v \<Rightarrow> nat observables) \<Rightarrow> (nat \<Rightarrow> 'a source) \<Rightarrow> ('v, 'a) event list \<Rightarrow> ('v \<times> 'a list) list" where
  "run factory store [] = []"
| "run factory store (Primary v # es) =
     concatLatestFrom (\<lambda>v. map_observables store (factory v)) v @ run factory store es"
| "run factory store (Secondary i x # es) =
     run factory (store(i := next_value x (store i))) es"

text \<open>
  A factory that returns the one stream at address \<open>0\<close> whatever the value, as
  \<^verbatim>\<open>() => this.options$\<close> does, and two stores whose stream has emitted \<open>5\<close>: a plain
  \<^verbatim>\<open>Subject\<close> and a \<^verbatim>\<open>ReplaySubject(1)\<close>.
\<close>

definition one_stream :: "nat \<Rightarrow> nat observables" where
  "one_stream v = Single 0"

definition plain_store :: "nat \<Rightarrow> nat source" where
  "plain_store i = Subject [5]"

definition replay_store :: "nat \<Rightarrow> nat source" where
  "replay_store i = ReplaySubject 1 [5]"

section \<open>The autocomplete's translations and filter\<close>

text \<open>
  \<^verbatim>\<open>String.prototype.toLowerCase\<close>. A character is a code point from U+0000 to U+00FF.
  The capital letters among them are A to Z, U+00C0 to U+00D6 and U+00D8 to U+00DE (U+00D7
  is the multiplication sign), and the small letter of each is 32 code points further;
  every other character is its own lower case.
\<close>

definition isUpperCase :: "char \<Rightarrow> bool" where
  "isUpperCase c =
     (let n = (of_char c :: nat)
      in (65 \<le> n \<and> n \<le> 90) \<or> (192 \<le> n \<and> n \<le> 214) \<or> (216 \<le> n \<and> n \<le> 222))"

definition toLowerCase_char :: "char \<Rightarrow> char" where
  "toLowerCase_char c = (if isUpperCase c then char_of (of_char c + 32 :: nat) else c)"

definition toLowerCase :: "string \<Rightarrow> string" where
  "toLowerCase s = map toLowerCase_char s"

text \<open>
  What matching without regard to case means, said without \<^verbatim>\<open>toLowerCase\<close>: two
  characters are equal ignoring case when they are the same character, or one is a
  capital letter and the other is its small letter.
\<close>

definition equal_ignoring_case :: "char \<Rightarrow> char \<Rightarrow> bool" where
  "equal_ignoring_case c d =
     (c = d \<or> (isUpperCase c \<and> (of_char d :: nat) = of_char c + 32)
            \<or> (isUpperCase d \<and> (of_char c :: nat) = of_char d + 32))"

text \<open>\<^verbatim>\<open>s.startsWith(sub)\<close> and \<^verbatim>\<open>s.includes(sub)\<close>.\<close>

fun startsWith :: "string \<Rightarrow> string \<Rightarrow> bool" where
  "startsWith s [] = True"
| "startsWith [] (c # sub) = False"
| "startsWith (d # s) (c # sub) = (d = c \<and> startsWith s sub)"

fun includes' :: "string \<Rightarrow> string \<Rightarrow> bool" where
  "includes' [] sub = (sub = [])"
| "includes' (d # s) sub = (startsWith (d # s) sub \<or> includes' s sub)"

fun filterOptions :: "AutocompleteOption list \<Rightarrow> jsval \<Rightarrow> AutocompleteOption list" where
  "filterOptions options Undefined = options"
| "filterOptions options Null = options"
| "filterOptions options (Str v) =
     filter (\<lambda>option. includes' (toLowerCase (label option)) (toLowerCase v)) options"

text \<open>
  The callback of \<^verbatim>\<open>switchMap\<close> in \<^verbatim>\<open>innerToOuter\<close>, on the pair
  \<^verbatim>\<open>[value, options]\<close>; the result is the emissions of the stream it returns. The
  factory returns the single stream \<^verbatim>\<open>options$\<close>, so the pair always has one option
  set.
\<close>

fun innerToOuter_project :: "bool \<Rightarrow> jsval \<times> AutocompleteOption list list \<Rightarrow> jsval list" where
  "innerToOuter_project allowNonOptionValue (v, [options]) =
     (if allowNonOptionValue then [v]
      else
        (let matchingOptionValue =
               (case find (\<lambda>x. Str (label x) = v) options of
                  None \<Rightarrow> Undefined
                | Some x \<Rightarrow> Str (value' x))
         in filter (\<lambda>x. x \<noteq> Undefined) [matchingOptionValue]))"
| "innerToOuter_project allowNonOptionValue (v, _) = []"

text \<open>The callback of \<^verbatim>\<open>map\<close> in \<^verbatim>\<open>outerToInner\<close>.\<close>

fun outerToInner_project :: "bool \<Rightarrow> jsval \<times> AutocompleteOption list list \<Rightarrow> jsval list" where
  "outerToInner_project allowNonOptionValue (v, [options]) =
     (case find (\<lambda>x. Str (value' x) = v) options of
        Some foundOption \<Rightarrow> [Str (label foundOption)]
      | None \<Rightarrow> [if allowNonOptionValue then v else Str ''''])"
| "outerToInner_project allowNonOptionValue (v, _) = []"

text \<open>
  \<^verbatim>\<open>innerToOuter\<close> and \<^verbatim>\<open>outerToInner\<close> for one value of their input stream, given
  the flag and the stream \<^verbatim>\<open>options$\<close> as they are when the value arrives:
  \<^verbatim>\<open>concatLatestFrom(() => this.options$)\<close>, then \<^verbatim>\<open>switchMap\<close> or \<^verbatim>\<open>map\<close>.
\<close>

definition innerToOuter :: "bool \<Rightarrow> AutocompleteOption list source \<Rightarrow> jsval \<Rightarrow> jsval list" where
  "innerToOuter allowNonOptionValue options_S v =
     concat (map (innerToOuter_project allowNonOptionValue)
       (concatLatestFrom (\<lambda>_. Single options_S) v))"

definition outerToInner :: "bool \<Rightarrow> AutocompleteOption list source \<Rightarrow> jsval \<Rightarrow> jsval list" where
  "outerToInner allowNonOptionValue options_S v =
     concat (map (outerToInner_project allowNonOptionValue)
       (concatLatestFrom (\<lambda>_. Single options_S) v))"

section \<open>The component as a state machine\<close>

text \<open>
  The state of one \<^verbatim>\<open>SimpleAutocompleteComponent\<close> once its constructor has run,
  with its effects as logs.
  \<^item> \<open>options_emitted\<close>: the values \<^verbatim>\<open>options$\<close>, a \<^verbatim>\<open>ReplaySubject(1)\<close>, was given,
    one for each assignment of the input \<^verbatim>\<open>options\<close>;
  \<^item> \<open>formControl_value\<close>: \<^verbatim>\<open>formControl.value\<close>, the text of the inner surface;
  \<^item> \<open>setValue_log\<close>: the calls \<^verbatim>\<open>formControl.setValue(v, { emitEvent: false })\<close> the
    component has made, in order;
  \<^item> \<open>outgoing\<close>: the calls of \<^verbatim>\<open>emitOutgoingValue\<close>, in order;
  \<^item> \<open>latestValueLabel\<close>: the last value \<^verbatim>\<open>latestValueLabel$\<close> has emitted, as
    \<^verbatim>\<open>withLatestFrom\<close> in \<^verbatim>\<open>handleFocusOut\<close> holds it (\<open>None\<close>: none yet);
  \<^item> \<open>value_last\<close>, \<open>value_log\<close>: what \<^verbatim>\<open>distinctUntilChanged\<close> in \<^verbatim>\<open>value$\<close>
    remembers, and the emissions of \<^verbatim>\<open>value$\<close>, for a subscriber of
    \<^verbatim>\<open>filteredOptions$\<close> attached at construction;
  \<^item> \<open>filteredOptions_log\<close>: the emissions of \<^verbatim>\<open>filteredOptions$\<close> to that subscriber.
\<close>

record component =
  allowNonOptionValue :: bool
  options_emitted :: "AutocompleteOption list list"
  formControl_value :: jsval
  setValue_log :: "jsval list"
  outgoing :: "jsval list"
  latestValueLabel :: "jsval option"
  value_last :: "jsval option"
  value_log :: "jsval list"
  filteredOptions_log :: "AutocompleteOption list list"

definition options_S :: "component \<Rightarrow> AutocompleteOption list source" where
  "options_S c = ReplaySubject 1 (options_emitted c)"

text \<open>
  After construction: \<^verbatim>\<open>new FormControl()\<close> holds \<^verbatim>\<open>null\<close>, and
  \<^verbatim>\<open>inputValues$\<close> starts with that value, which \<^verbatim>\<open>value$\<close> passes on.
\<close>

definition init :: "bool \<Rightarrow> component" where
  "init allow =
     \<lparr>allowNonOptionValue = allow, options_emitted = [], formControl_value = Null,
      setValue_log = [], outgoing = [], latestValueLabel = None,
      value_last = Some Null, value_log = [Null], filteredOptions_log = []\<rparr>"

text \<open>
  \<^verbatim>\<open>combineLatest([value$, options$])\<close> with \<^verbatim>\<open>map\<close> to \<^verbatim>\<open>filterOptions\<close>: an
  emission once both streams have a value.
\<close>

definition filteredOptions_emit :: "component \<Rightarrow> component" where
  "filteredOptions_emit c =
     (case (value_last c, replay (options_S c)) of
        (Some v, [options]) \<Rightarrow>
          c\<lparr>filteredOptions_log := filteredOptions_log c @ [filterOptions options v]\<rparr>
      | _ \<Rightarrow> c)"

text \<open>A value reaching \<^verbatim>\<open>distinctUntilChanged\<close> in \<^verbatim>\<open>value$\<close>.\<close>

definition value_next :: "jsval \<Rightarrow> component \<Rightarrow> component" where
  "value_next v c =
     (if value_last c = Some v then c
      else filteredOptions_emit (c\<lparr>value_last := Some v, value_log := value_log c @ [v]\<rparr>))"

text \<open>
  \<^verbatim>\<open>declareLatestValueLabel\<close>: the callback of \<^verbatim>\<open>map\<close>, and a value of
  \<^verbatim>\<open>latestValue$\<close> passing \<^verbatim>\<open>withLatestFrom(this.options$)\<close> to the two subscribers of
  \<^verbatim>\<open>latestValueLabel$\<close> (\<^verbatim>\<open>handleFocusOut\<close> and \<^verbatim>\<open>value$\<close>).
\<close>

definition declareLatestValueLabel :: "jsval \<times> AutocompleteOption list \<Rightarrow> jsval" where
  "declareLatestValueLabel p =
     (case p of (v, options) \<Rightarrow>
        (case find (\<lambda>x. Str (value' x) = v) options of
           None \<Rightarrow> Undefined
         | Some x \<Rightarrow> Str (label x)))"

definition latestValue_next :: "jsval \<Rightarrow> component \<Rightarrow> component" where
  "latestValue_next v c =
     (case replay (options_S c) of
        [options] \<Rightarrow>
          (let l = declareLatestValueLabel (v, options)
           in value_next l (c\<lparr>latestValueLabel := Some l\<rparr>))
      | _ \<Rightarrow> c)"

text \<open>
  \<^verbatim>\<open>handleIncomingValue\<close>: \<^verbatim>\<open>incomingValues$$.next(value)\<close>. The subscribers of the
  subject, in the order they subscribed: \<^verbatim>\<open>outerToInner$\<close>, whose \<^verbatim>\<open>tap\<close> writes the
  inner control, then \<^verbatim>\<open>latestValue$\<close>.
\<close>

definition outerToInner_tap :: "jsval \<Rightarrow> component \<Rightarrow> component" where
  "outerToInner_tap v c = c\<lparr>formControl_value := v, setValue_log := setValue_log c @ [v]\<rparr>"

definition handleIncomingValue :: "jsval \<Rightarrow> component \<Rightarrow> component" where
  "handleIncomingValue v c =
     latestValue_next v
       (fold outerToInner_tap (outerToInner (allowNonOptionValue c) (options_S c) v) c)"

text \<open>
  An edit of the inner surface by the user: the control takes the text and
  \<^verbatim>\<open>formControl.valueChanges\<close> emits it, first to \<^verbatim>\<open>innerToOuter$\<close> (its \<^verbatim>\<open>tap\<close> calls
  \<^verbatim>\<open>emitOutgoingValue\<close>, and \<^verbatim>\<open>latestValue$\<close> takes what it emits), then to
  \<^verbatim>\<open>inputValues$\<close>.
\<close>

definition innerToOuter_tap :: "jsval \<Rightarrow> component \<Rightarrow> component" where
  "innerToOuter_tap v c = latestValue_next v (c\<lparr>outgoing := outgoing c @ [v]\<rparr>)"

definition inputValue :: "jsval \<Rightarrow> component \<Rightarrow> component" where
  "inputValue t c =
     (let c1 = c\<lparr>formControl_value := t\<rparr>
      in value_next t
           (fold innerToOuter_tap (innerToOuter (allowNonOptionValue c1) (options_S c1) t) c1))"

text \<open>Assigning the inputs \<^verbatim>\<open>options\<close> and \<^verbatim>\<open>allowNonOptionValue\<close>.\<close>

definition setOptions :: "AutocompleteOption list \<Rightarrow> component \<Rightarrow> component" where
  "setOptions options c = filteredOptions_emit (c\<lparr>options_emitted := options_emitted c @ [options]\<rparr>)"

definition setAllowNonOptionValue :: "bool \<Rightarrow> component \<Rightarrow> component" where
  "setAllowNonOptionValue b c = c\<lparr>allowNonOptionValue := b\<rparr>"

text \<open>
  \<^verbatim>\<open>handleFocusOut\<close>: \<^verbatim>\<open>focusOut$\<close> with the latest \<^verbatim>\<open>latestValueLabel$\<close>; nothing
  passes before \<^verbatim>\<open>latestValueLabel$\<close> has emitted. \<^verbatim>\<open>onEscapePressed\<close> and the
  callback of \<^verbatim>\<open>monitorFocusOut\<close> (on an empty origin) both call \<^verbatim>\<open>focusOut$.next()\<close>.
\<close>

definition handleFocusOut :: "component \<Rightarrow> component" where
  "handleFocusOut c =
     (case latestValueLabel c of
        None \<Rightarrow> c
      | Some l \<Rightarrow>
          (if formControl_value c \<noteq> l
           then c\<lparr>formControl_value := l, setValue_log := setValue_log c @ [l]\<rparr>
           else c))"

definition onEscapePressed :: "component \<Rightarrow> component" where
  "onEscapePressed c = handleFocusOut c"

definition monitorFocusOut :: "string option \<Rightarrow> component \<Rightarrow> component" where
  "monitorFocusOut origin c = (if origin = None then handleFocusOut c else c)"

text \<open>The option set of the tests.\<close>

definition inOption :: AutocompleteOption where
  "inOption = \<lparr>value' = ''IN'', label = ''India'', preferred = Some False\<rparr>"

definition idOption :: AutocompleteOption where
  "idOption = \<lparr>value' = ''ID'', label = ''Indonesia'', preferred = Some False\<rparr>"

definition ioOption :: AutocompleteOption where
  "ioOption = \<lparr>value' = ''IO'', label = ''British Indian Ocean Territory'', preferred = Some False\<rparr>"

definition options :: "AutocompleteOption list" where
  "options = [ioOption, inOption, idOption]"

section \<open>Patching a method of an object\<close>

text \<open>
  A call completes by returning a value (\<open>None\<close> is \<^verbatim>\<open>undefined\<close>) or by throwing. A
  method takes its \<^verbatim>\<open>this\<close> (\<open>None\<close> when called as a plain function), its arguments
  and the state of the world, and gives its completion and the new state. An object is a
  reference with a table of methods.
\<close>

datatype 'e exn = TypeError | Thrown 'e

datatype ('e, 'r) completion = Throw "'e exn" | Return "'r option"

type_synonym ('o, 'a, 'w, 'e, 'r) jsmethod =
  "'o option \<Rightarrow> 'a list \<Rightarrow> 'w \<Rightarrow> ('e, 'r) completion \<times> 'w"

text \<open>\<^verbatim>\<open>f.bind(obj)\<close>.\<close>

definition bind_this :: "('o, 'a, 'w, 'e, 'r) jsmethod \<Rightarrow> 'o \<Rightarrow> ('o, 'a, 'w, 'e, 'r) jsmethod" where
  "bind_this f obj = (\<lambda>this args. f (Some obj) args)"

text \<open>
  The inner function \<^verbatim>\<open>updatedFn\<close>: two call statements and no \<^verbatim>\<open>return\<close>. A throw
  of the first call ends it.
\<close>

definition updatedFn ::
  "('o, 'a, 'w, 'e, 'r) jsmethod \<Rightarrow> ('o, 'a, 'w, 'e, 'r) jsmethod \<Rightarrow> ('o, 'a, 'w, 'e, 'r) jsmethod" where
  "updatedFn fn originalFn = (\<lambda>this args w.
     (case fn None args w of
        (Throw e, w1) \<Rightarrow> (Throw e, w1)
      | (Return r1, w1) \<Rightarrow>
          (case originalFn None args w1 of
             (Throw e, w2) \<Rightarrow> (Throw e, w2)
           | (Return r2, w2) \<Rightarrow> (Return None, w2))))"

text \<open>
  \<^verbatim>\<open>patchObjectMethodWith(obj, methodName, fn)\<close> returns the object's new table.
  Reading \<^verbatim>\<open>bind\<close> of a property that is not there throws a \<^verbatim>\<open>TypeError\<close>.
\<close>

definition patchObjectMethodWith ::
  "'o \<Rightarrow> (string \<rightharpoonup> ('o, 'a, 'w, 'e, 'r) jsmethod) \<Rightarrow> string \<Rightarrow> ('o, 'a, 'w, 'e, 'r) jsmethod
     \<Rightarrow> 'e exn + (string \<rightharpoonup> ('o, 'a, 'w, 'e, 'r) jsmethod)" where
  "patchObjectMethodWith obj methods methodName fn =
     (case methods methodName of
        None \<Rightarrow> Inl TypeError
      | Some m \<Rightarrow>
          (let originalFn = bind_this m obj
           in Inr (methods(methodName \<mapsto> updatedFn fn originalFn))))"

text \<open>The call \<^verbatim>\<open>obj.methodName(...args)\<close>.\<close>

definition invoke ::
  "'o \<Rightarrow> (string \<rightharpoonup> ('o, 'a, 'w, 'e, 'r) jsmethod) \<Rightarrow> string \<Rightarrow> 'a list \<Rightarrow> 'w
     \<Rightarrow> ('e, 'r) completion \<times> 'w" where
  "invoke obj methods methodName args w =
     (case methods methodName of
        None \<Rightarrow> (Throw TypeError, w)
      | Some m \<Rightarrow> m (Some obj) args w)"

text \<open>
  Methods to run the patched call on. \<open>push\<close> is a mutator that returns a value, as
  \<^verbatim>\<open>Array.prototype.push\<close> does: the world is the number of elements held, and the new
  number is returned. \<open>logged_nothing\<close> is a callback that does nothing. \<open>logged\<close>
  records in the world, a list, its name, its \<^verbatim>\<open>this\<close> and its arguments.
\<close>

definition push :: "(nat, bool, nat, unit, nat) jsmethod" where
  "push = (\<lambda>this args w. (Return (Some (w + length args)), w + length args))"

definition logged_nothing :: "(nat, bool, nat, unit, nat) jsmethod" where
  "logged_nothing = (\<lambda>this args w. (Return None, w))"

definition logged ::
  "string \<Rightarrow> (nat, bool, (string \<times> nat option \<times> bool list) list, unit, unit) jsmethod" where
  "logged name = (\<lambda>this args w. (Return None, w @ [(name, this, args)]))"

section \<open>Synchronising the outer and the inner control\<close>

text \<open>
  What \<^verbatim>\<open>WrappedFormControlSuperclass\<close> reads of the outer binding: \<^verbatim>\<open>ngControl\<close>
  may be undefined, and its \<^verbatim>\<open>control\<close> and \<^verbatim>\<open>statusChanges\<close> may not be resolved.
  The effects of the synchronisation are the subscriptions made with \<^verbatim>\<open>subscribeTo\<close>
  and the methods patched, on the inner or on the outer control. \<open>destroyed\<close> records that
  the framework has destroyed the instance, which ends its subscriptions; \<open>timers\<close> counts
  the callbacks given to \<^verbatim>\<open>setTimeout\<close> that have not run (the code keeps no handle of
  them).
\<close>

record NgControl =
  control :: bool
  statusChanges :: bool

datatype target = Inner | Outer

record wrapped =
  ngControl :: "NgControl option"
  destroyed :: bool
  timers :: nat
  subscriptions :: "string list"
  patched :: "(target \<times> string) list"

definition subscribeTo :: "string \<Rightarrow> wrapped \<Rightarrow> wrapped" where
  "subscribeTo name w = w\<lparr>subscriptions := subscriptions w @ [name]\<rparr>"

definition patch :: "target \<Rightarrow> string \<Rightarrow> wrapped \<Rightarrow> wrapped" where
  "patch t methodName w = w\<lparr>patched := patched w @ [(t, methodName)]\<rparr>"

text \<open>The test \<^verbatim>\<open>!this.ngControl?.control\<close>, negated.\<close>

definition has_control :: "wrapped \<Rightarrow> bool" where
  "has_control w = (case ngControl w of None \<Rightarrow> False | Some n \<Rightarrow> control n)"

definition syncOuterToInnerErrors :: "wrapped \<Rightarrow> wrapped" where
  "syncOuterToInnerErrors w =
     (case ngControl w of
        None \<Rightarrow> w
      | Some n \<Rightarrow> if \<not> statusChanges n then w else subscribeTo ''syncOuterToInnerErrors$'' w)"

text \<open>
  \<^verbatim>\<open>extractTouchedChanges\<close> and \<^verbatim>\<open>extractDirtyChanges\<close> patch the two methods of
  their table on the outer control, in the order of its keys.
\<close>

definition extractMethodsIntoObservable :: "string list \<Rightarrow> wrapped \<Rightarrow> wrapped" where
  "extractMethodsIntoObservable methods w = fold (patch Outer) methods w"

definition syncOuterAndInnerTouched :: "wrapped \<Rightarrow> wrapped" where
  "syncOuterAndInnerTouched w =
     (if \<not> has_control w then w
      else subscribeTo ''syncOuterToInnerTouched$''
             (patch Inner ''markAsTouched''
               (extractMethodsIntoObservable [''markAsTouched'', ''markAsUntouched''] w)))"

definition syncOuterAndInnerDirty :: "wrapped \<Rightarrow> wrapped" where
  "syncOuterAndInnerDirty w =
     (if \<not> has_control w then w
      else subscribeTo ''syncOuterToInnerDirty$''
             (patch Inner ''markAsDirty''
               (extractMethodsIntoObservable [''markAsDirty'', ''markAsPristine''] w)))"

definition syncOuterToInnerPending :: "wrapped \<Rightarrow> wrapped" where
  "syncOuterToInnerPending w =
     (if \<not> has_control w then w else patch Outer ''markAsPending'' w)"

text \<open>
  \<^verbatim>\<open>syncOuterAndInnerControls\<close> hands its callback to \<^verbatim>\<open>setTimeout\<close>; the callback
  runs on a later turn.
\<close>

definition syncOuterAndInnerControls :: "wrapped \<Rightarrow> wrapped" where
  "syncOuterAndInnerControls w = w\<lparr>timers := Suc (timers w)\<rparr>"

definition syncOuterAndInnerControls_callback :: "wrapped \<Rightarrow> wrapped" where
  "syncOuterAndInnerControls_callback w =
     (if \<not> has_control w then w
      else syncOuterToInnerPending
             (syncOuterAndInnerDirty (syncOuterAndInnerTouched (syncOuterToInnerErrors w))))"

definition next_turn :: "wrapped \<Rightarrow> wrapped" where
  "next_turn w =
     (case timers w of
        0 \<Rightarrow> w
      | Suc k \<Rightarrow> syncOuterAndInnerControls_callback (w\<lparr>timers := k\<rparr>))"

text \<open>
  The framework destroys the instance: its subscriptions end. The binding \<^verbatim>\<open>ngControl\<close>
  stays as it is, and a callback given to \<^verbatim>\<open>setTimeout\<close> stays scheduled.
\<close>

definition ngOnDestroy :: "wrapped \<Rightarrow> wrapped" where
  "ngOnDestroy w = w\<lparr>destroyed := True, subscriptions := []\<rparr>"

text \<open>The instance when the constructor returns.\<close>

definition constructed :: "NgControl option \<Rightarrow> wrapped" where
  "constructed n =
     syncOuterAndInnerControls
       \<lparr>ngControl = n, destroyed = False, timers = 0,
        subscriptions = [''outerToInner$'', ''innerToOuter$''], patched = []\<rparr>"

subsection \<open>Errors of the outer control as the inner control's validator\<close>

text \<open>
  The inner \<^verbatim>\<open>FormControl\<close>, as far as validation goes: its validator function
  (\<open>None\<close> is \<^verbatim>\<open>null\<close>), which \<^verbatim>\<open>setValidators\<close> overwrites, its errors, which
  \<^verbatim>\<open>updateValueAndValidity\<close> computes by running the validator unless the control is
  disabled. A validator reads the control through the text it holds. An error set is
  \<open>None\<close> for \<^verbatim>\<open>null\<close>.
\<close>

record 'e FormControl =
  held :: jsval
  validator :: "(jsval \<Rightarrow> 'e option) option"
  errors :: "'e option"
  disabled :: bool

definition setValidators :: "(jsval \<Rightarrow> 'e option) \<Rightarrow> 'e FormControl \<Rightarrow> 'e FormControl" where
  "setValidators v fc = fc\<lparr>validator := Some v\<rparr>"

definition updateValueAndValidity :: "'e FormControl \<Rightarrow> 'e FormControl" where
  "updateValueAndValidity fc =
     (if disabled fc then fc
      else fc\<lparr>errors := (case validator fc of None \<Rightarrow> None | Some v \<Rightarrow> v (held fc))\<rparr>)"

definition syncErrorsValidator :: "'e option \<Rightarrow> (jsval \<Rightarrow> 'e option)" where
  "syncErrorsValidator errs = (\<lambda>_. errs)"

text \<open>
  The callback of \<^verbatim>\<open>tap\<close> in \<^verbatim>\<open>syncOuterToInnerErrors\<close>, on the errors
  \<^verbatim>\<open>ngControl.errors\<close> read at a status change, and the stream of them.
\<close>

definition syncOuterToInnerErrors_tap :: "'e option \<Rightarrow> 'e FormControl \<Rightarrow> 'e FormControl" where
  "syncOuterToInnerErrors_tap errs fc =
     updateValueAndValidity (setValidators (syncErrorsValidator errs) fc)"

definition statusChanges_run :: "'e option list \<Rightarrow> 'e FormControl \<Rightarrow> 'e FormControl" where
  "statusChanges_run es fc = fold syncOuterToInnerErrors_tap es fc"

text \<open>
  A validator the inner control may have been given before: \<^verbatim>\<open>Validators.required\<close>, on
  the text the control holds.
\<close>

definition required :: "jsval \<Rightarrow> string option" where
  "required v = (if v = Undefined \<or> v = Null \<or> v = Str '''' then Some ''required'' else None)"

section \<open>Properties\<close>

subsection \<open>Strings\<close>

lemma startsWith_iff: "startsWith s sub \<longleftrightarrow> (\<exists>ss. s = sub @ ss)"
  by (induction s sub rule: startsWith.induct) auto

lemma includes'_iff: "includes' s sub \<longleftrightarrow> (\<exists>ps ss. s = ps @ sub @ ss)"
proof (induction s)
  case Nil
  then show ?case by auto
next
  case (Cons d s)
  show ?case
  proof
    assume "includes' (d # s) sub"
    then consider "startsWith (d # s) sub" | "includes' s sub" by auto
    then show "\<exists>ps ss. d # s = ps @ sub @ ss"
    proof cases
      case 1
      then obtain ss where "d # s = sub @ ss" by (auto simp: startsWith_iff)
      then have "d # s = [] @ sub @ ss" by simp
      then show ?thesis by blast
    next
      case 2
      then obtain ps ss where "s = ps @ sub @ ss" using Cons.IH by auto
      then have "d # s = (d # ps) @ sub @ ss" by simp
      then show ?thesis by blast
    qed
  next
    assume "\<exists>ps ss. d # s = ps @ sub @ ss"
    then obtain ps ss where eq: "d # s = ps @ sub @ ss" by blast
    show "includes' (d # s) sub"
    proof (cases ps)
      case Nil
      then have "startsWith (d # s) sub" using eq by (auto simp: startsWith_iff)
      then show ?thesis by simp
    next
      case (Cons p ps')
      then have "s = ps' @ sub @ ss" using eq by simp
      then have "includes' s sub" using Cons.IH by blast
      then show ?thesis by simp
    qed
  qed
qed

lemma of_char_toLowerCase_char:
  "(of_char (toLowerCase_char c) :: nat) = (if isUpperCase c then of_char c + 32 else of_char c)"
  by (auto simp: toLowerCase_char_def isUpperCase_def Let_def take_bit_eq_mod)

lemma toLowerCase_char_eq_iff:
  "toLowerCase_char c = toLowerCase_char d \<longleftrightarrow> equal_ignoring_case c d"
proof -
  have "toLowerCase_char c = toLowerCase_char d \<longleftrightarrow>
      (of_char (toLowerCase_char c) :: nat) = of_char (toLowerCase_char d)"
    by simp
  also have "\<dots> \<longleftrightarrow> equal_ignoring_case c d"
    unfolding of_char_toLowerCase_char equal_ignoring_case_def
    by (auto simp: isUpperCase_def Let_def)
  finally show ?thesis .
qed

lemma map_eq_map_iff_all2: "map f u = map f t \<longleftrightarrow> list_all2 (\<lambda>a b. f a = f b) u t"
  by (induction u arbitrary: t) (auto simp: list_all2_Cons1 map_eq_Cons_conv)

lemma toLowerCase_substring:
  "(\<exists>ps ss. toLowerCase s = ps @ toLowerCase t @ ss) \<longleftrightarrow>
   (\<exists>ps u ss. s = ps @ u @ ss \<and> list_all2 equal_ignoring_case u t)"
proof
  assume "\<exists>ps ss. toLowerCase s = ps @ toLowerCase t @ ss"
  then obtain ps ss where "map toLowerCase_char s = ps @ map toLowerCase_char t @ ss"
    by (auto simp: toLowerCase_def)
  then have "\<exists>us vs. s = us @ vs \<and> ps = map toLowerCase_char us \<and>
      map toLowerCase_char t @ ss = map toLowerCase_char vs"
    by (simp add: map_eq_append_conv)
  then obtain ps' r where s: "s = ps' @ r"
    and e: "map toLowerCase_char t @ ss = map toLowerCase_char r" by blast
  from e have "\<exists>us vs. r = us @ vs \<and> map toLowerCase_char t = map toLowerCase_char us \<and>
      ss = map toLowerCase_char vs"
    by (simp add: append_eq_map_conv)
  then obtain u ss' where r: "r = u @ ss'"
    and u: "map toLowerCase_char t = map toLowerCase_char u" by blast
  from u [symmetric] have "list_all2 equal_ignoring_case u t"
    by (simp add: map_eq_map_iff_all2 toLowerCase_char_eq_iff)
  with s r show "\<exists>ps u ss. s = ps @ u @ ss \<and> list_all2 equal_ignoring_case u t" by blast
next
  assume "\<exists>ps u ss. s = ps @ u @ ss \<and> list_all2 equal_ignoring_case u t"
  then obtain ps u ss where s: "s = ps @ u @ ss" and "list_all2 equal_ignoring_case u t" by blast
  then have "map toLowerCase_char u = map toLowerCase_char t"
    by (simp add: map_eq_map_iff_all2 toLowerCase_char_eq_iff)
  with s have "toLowerCase s = toLowerCase ps @ toLowerCase t @ toLowerCase ss"
    by (simp add: toLowerCase_def)
  then show "\<exists>ps ss. toLowerCase s = ps @ toLowerCase t @ ss" by blast
qed

lemma toLowerCase_idem: "toLowerCase (toLowerCase s) = toLowerCase s"
proof -
  have "toLowerCase_char (toLowerCase_char c) = toLowerCase_char c" for c
  proof -
    have "\<not> isUpperCase (toLowerCase_char c)"
      using of_char_toLowerCase_char [of c]
      by (auto simp: isUpperCase_def Let_def split: if_splits)
    then show ?thesis by (simp add: toLowerCase_char_def [of "toLowerCase_char c"])
  qed
  then show ?thesis by (simp add: toLowerCase_def)
qed

subsection \<open>The option stream\<close>

lemma concatLatestFrom_options:
  "options_emitted c = h @ [opts] \<Longrightarrow>
   concatLatestFrom (\<lambda>_. Single (options_S c)) v = [(v, [opts])]"
  by (simp add: concatLatestFrom_def withLatestFrom_def options_S_def)

lemma concatLatestFrom_no_options:
  "options_emitted c = [] \<Longrightarrow> concatLatestFrom (\<lambda>_. Single (options_S c)) v = []"
  by (simp add: concatLatestFrom_def withLatestFrom_def options_S_def)

lemma find_distinct:
  "distinct (map f xs) \<Longrightarrow> x \<in> set xs \<Longrightarrow> f x = k \<Longrightarrow> find (\<lambda>y. f y = k) xs = Some x"
  by (induction xs) (auto simp: rev_image_eqI)

subsection \<open>Fields the stream handlers leave alone\<close>

lemma filteredOptions_emit_fields:
  "allowNonOptionValue (filteredOptions_emit c) = allowNonOptionValue c"
  "options_emitted (filteredOptions_emit c) = options_emitted c"
  "formControl_value (filteredOptions_emit c) = formControl_value c"
  "setValue_log (filteredOptions_emit c) = setValue_log c"
  "outgoing (filteredOptions_emit c) = outgoing c"
  "latestValueLabel (filteredOptions_emit c) = latestValueLabel c"
  "value_last (filteredOptions_emit c) = value_last c"
  "value_log (filteredOptions_emit c) = value_log c"
  by (simp_all add: filteredOptions_emit_def split: option.splits list.splits)

lemma value_next_fields:
  "allowNonOptionValue (value_next v c) = allowNonOptionValue c"
  "options_emitted (value_next v c) = options_emitted c"
  "formControl_value (value_next v c) = formControl_value c"
  "setValue_log (value_next v c) = setValue_log c"
  "outgoing (value_next v c) = outgoing c"
  "latestValueLabel (value_next v c) = latestValueLabel c"
  by (simp_all add: value_next_def filteredOptions_emit_fields)

lemma value_next_last: "value_last (value_next v c) = Some v"
  by (simp add: value_next_def filteredOptions_emit_fields)

lemma value_next_repeat: "value_last c = Some v \<Longrightarrow> value_next v c = c"
  by (simp add: value_next_def)

lemma latestValue_next_options:
  "options_emitted c = h @ [opts] \<Longrightarrow>
   latestValue_next v c =
     value_next (declareLatestValueLabel (v, opts))
       (c\<lparr>latestValueLabel := Some (declareLatestValueLabel (v, opts))\<rparr>)"
  by (simp add: latestValue_next_def options_S_def Let_def)

lemma latestValue_next_no_options:
  "options_emitted c = [] \<Longrightarrow> latestValue_next v c = c"
  by (simp add: latestValue_next_def options_S_def)

lemma latestValue_next_fields:
  "allowNonOptionValue (latestValue_next v c) = allowNonOptionValue c"
  "options_emitted (latestValue_next v c) = options_emitted c"
  "formControl_value (latestValue_next v c) = formControl_value c"
  "setValue_log (latestValue_next v c) = setValue_log c"
  "outgoing (latestValue_next v c) = outgoing c"
  by (simp_all add: latestValue_next_def Let_def value_next_fields split: list.splits)

subsection \<open>Edits, incoming values and focus loss\<close>

lemma innerToOuter_options:
  "options_emitted c = h @ [opts] \<Longrightarrow>
   innerToOuter a (options_S c) t = innerToOuter_project a (t, [opts])"
  by (simp add: innerToOuter_def concatLatestFrom_options)

lemma outerToInner_options:
  "options_emitted c = h @ [opts] \<Longrightarrow>
   outerToInner a (options_S c) v = outerToInner_project a (v, [opts])"
  by (simp add: outerToInner_def concatLatestFrom_options)

lemma fold_innerToOuter_tap_outgoing:
  "outgoing (fold innerToOuter_tap vs c) = outgoing c @ vs"
  by (induction vs arbitrary: c) (simp_all add: innerToOuter_tap_def latestValue_next_fields)

lemma fold_innerToOuter_tap_fields:
  "allowNonOptionValue (fold innerToOuter_tap vs c) = allowNonOptionValue c"
  "options_emitted (fold innerToOuter_tap vs c) = options_emitted c"
  "formControl_value (fold innerToOuter_tap vs c) = formControl_value c"
  "setValue_log (fold innerToOuter_tap vs c) = setValue_log c"
  by (induction vs arbitrary: c) (simp_all add: innerToOuter_tap_def latestValue_next_fields)

lemma inputValue_fields:
  "allowNonOptionValue (inputValue t c) = allowNonOptionValue c"
  "options_emitted (inputValue t c) = options_emitted c"
  "formControl_value (inputValue t c) = t"
  "setValue_log (inputValue t c) = setValue_log c"
  "outgoing (inputValue t c) = outgoing c @ innerToOuter (allowNonOptionValue c) (options_S c) t"
  by (simp_all add: inputValue_def Let_def value_next_fields fold_innerToOuter_tap_fields
      fold_innerToOuter_tap_outgoing options_S_def)

lemma inputValue_dropped:
  "innerToOuter (allowNonOptionValue c) (options_S c) t = [] \<Longrightarrow>
   latestValueLabel (inputValue t c) = latestValueLabel c"
  by (simp add: inputValue_def Let_def value_next_fields options_S_def)

lemma inputValue_emitted:
  "options_emitted c = h @ [opts] \<Longrightarrow>
   innerToOuter (allowNonOptionValue c) (options_S c) t = [v] \<Longrightarrow>
   latestValueLabel (inputValue t c) = Some (declareLatestValueLabel (v, opts))"
  by (simp add: inputValue_def Let_def value_next_fields options_S_def innerToOuter_tap_def
      latestValue_next_options [where h = h and opts = opts])

lemma handleIncomingValue_fields:
  "allowNonOptionValue (handleIncomingValue v c) = allowNonOptionValue c"
  "options_emitted (handleIncomingValue v c) = options_emitted c"
  "outgoing (handleIncomingValue v c) = outgoing c"
proof -
  have "allowNonOptionValue (fold outerToInner_tap vs c) = allowNonOptionValue c
      \<and> options_emitted (fold outerToInner_tap vs c) = options_emitted c
      \<and> outgoing (fold outerToInner_tap vs c) = outgoing c" for vs
    by (induction vs arbitrary: c) (simp_all add: outerToInner_tap_def)
  then show "allowNonOptionValue (handleIncomingValue v c) = allowNonOptionValue c"
    "options_emitted (handleIncomingValue v c) = options_emitted c"
    "outgoing (handleIncomingValue v c) = outgoing c"
    by (simp_all add: handleIncomingValue_def latestValue_next_fields)
qed

lemma handleIncomingValue_options:
  assumes "options_emitted c = h @ [opts]"
    and "outerToInner (allowNonOptionValue c) (options_S c) v = [t]"
  shows "formControl_value (handleIncomingValue v c) = t"
    and "setValue_log (handleIncomingValue v c) = setValue_log c @ [t]"
    and "latestValueLabel (handleIncomingValue v c) = Some (declareLatestValueLabel (v, opts))"
    and "value_last (handleIncomingValue v c) = Some (declareLatestValueLabel (v, opts))"
  using assms
  by (simp_all add: handleIncomingValue_def outerToInner_tap_def value_next_fields value_next_last
      latestValue_next_options [where h = h and opts = opts])

lemma outerToInner_single:
  "options_emitted c = h @ [opts] \<Longrightarrow> \<exists>t. outerToInner a (options_S c) v = [t]"
  by (simp add: outerToInner_options split: option.splits)

lemma handleFocusOut_fields:
  "allowNonOptionValue (handleFocusOut c) = allowNonOptionValue c"
  "options_emitted (handleFocusOut c) = options_emitted c"
  "outgoing (handleFocusOut c) = outgoing c"
  "latestValueLabel (handleFocusOut c) = latestValueLabel c"
  "value_last (handleFocusOut c) = value_last c"
  "value_log (handleFocusOut c) = value_log c"
  "filteredOptions_log (handleFocusOut c) = filteredOptions_log c"
  by (simp_all add: handleFocusOut_def split: option.splits)

lemma handleFocusOut_value:
  "latestValueLabel c = Some l \<Longrightarrow> formControl_value (handleFocusOut c) = l"
  by (simp add: handleFocusOut_def)

lemma options_emitted_setOptions:
  "options_emitted (setOptions opts c) = options_emitted c @ [opts]"
  by (simp add: setOptions_def filteredOptions_emit_fields)

lemma setOptions_fields:
  "allowNonOptionValue (setOptions opts c) = allowNonOptionValue c"
  "outgoing (setOptions opts c) = outgoing c"
  "formControl_value (setOptions opts c) = formControl_value c"
  "setValue_log (setOptions opts c) = setValue_log c"
  "latestValueLabel (setOptions opts c) = latestValueLabel c"
  by (simp_all add: setOptions_def filteredOptions_emit_fields)

subsection \<open>The filter and the two translations\<close>

text \<open>
  C6. The option filter is a substring match of the active text against each label that
  ignores case: an option is kept exactly when its label has a substring as long as the
  text whose characters equal those of the text ignoring case. The code does it by
  putting both in lower case, and putting the text in lower case beforehand changes
  nothing. A null or undefined active text gives back the whole option set. Filtering
  the three countries of the tests by \<^verbatim>\<open>o\<close> gives exactly British Indian Ocean
  Territory and Indonesia, and so does \<^verbatim>\<open>O\<close>; \<^verbatim>\<open>INDIA\<close> gives British Indian Ocean
  Territory and India; and a label that starts with U+00C9 is kept for the text U+00E9.
\<close>

theorem filterOptions_substring:
  "filterOptions opts Null = opts \<and> filterOptions opts Undefined = opts \<and>
   filterOptions opts (Str t) =
     filter (\<lambda>x. \<exists>ps u ss. label x = ps @ u @ ss \<and> list_all2 equal_ignoring_case u t) opts \<and>
   filterOptions opts (Str t) =
     filter (\<lambda>x. \<exists>ps ss. toLowerCase (label x) = ps @ toLowerCase t @ ss) opts \<and>
   filterOptions opts (Str (toLowerCase t)) = filterOptions opts (Str t) \<and>
   filterOptions
     [\<lparr>value' = ''IO'', label = ''British Indian Ocean Territory'', preferred = p1\<rparr>,
      \<lparr>value' = ''IN'', label = ''India'', preferred = p2\<rparr>,
      \<lparr>value' = ''ID'', label = ''Indonesia'', preferred = p3\<rparr>] (Str ''o'') =
     [\<lparr>value' = ''IO'', label = ''British Indian Ocean Territory'', preferred = p1\<rparr>,
      \<lparr>value' = ''ID'', label = ''Indonesia'', preferred = p3\<rparr>] \<and>
   filterOptions
     [\<lparr>value' = ''IO'', label = ''British Indian Ocean Territory'', preferred = p1\<rparr>,
      \<lparr>value' = ''IN'', label = ''India'', preferred = p2\<rparr>,
      \<lparr>value' = ''ID'', label = ''Indonesia'', preferred = p3\<rparr>] (Str ''O'') =
     [\<lparr>value' = ''IO'', label = ''British Indian Ocean Territory'', preferred = p1\<rparr>,
      \<lparr>value' = ''ID'', label = ''Indonesia'', preferred = p3\<rparr>] \<and>
   filterOptions
     [\<lparr>value' = ''IO'', label = ''British Indian Ocean Territory'', preferred = p1\<rparr>,
      \<lparr>value' = ''IN'', label = ''India'', preferred = p2\<rparr>,
      \<lparr>value' = ''ID'', label = ''Indonesia'', preferred = p3\<rparr>] (Str ''INDIA'') =
     [\<lparr>value' = ''IO'', label = ''British Indian Ocean Territory'', preferred = p1\<rparr>,
      \<lparr>value' = ''IN'', label = ''India'', preferred = p2\<rparr>] \<and>
   filterOptions
     [\<lparr>value' = ''EE'', label = [CHR 0xC9, CHR ''t'', CHR ''a'', CHR ''t''], preferred = p1\<rparr>,
      \<lparr>value' = ''IN'', label = ''India'', preferred = p2\<rparr>] (Str [CHR 0xE9]) =
     [\<lparr>value' = ''EE'', label = [CHR 0xC9, CHR ''t'', CHR ''a'', CHR ''t''], preferred = p1\<rparr>]"
proof -
  have ground:
    "toLowerCase ''British Indian Ocean Territory'' = ''british indian ocean territory''"
    "toLowerCase ''India'' = ''india''"
    "toLowerCase ''Indonesia'' = ''indonesia''"
    "toLowerCase ''o'' = ''o''"
    "toLowerCase ''O'' = ''o''"
    "toLowerCase ''INDIA'' = ''india''"
    "toLowerCase [CHR 0xC9, CHR ''t'', CHR ''a'', CHR ''t''] = [CHR 0xE9, CHR ''t'', CHR ''a'', CHR ''t'']"
    "toLowerCase [CHR 0xE9] = [CHR 0xE9]"
    by (simp_all add: toLowerCase_def toLowerCase_char_def isUpperCase_def char_of_eq_iff)
  have lower: "filterOptions opts (Str t) =
     filter (\<lambda>x. \<exists>ps ss. toLowerCase (label x) = ps @ toLowerCase t @ ss) opts"
    by (simp add: includes'_iff)
  have "filterOptions opts (Str t) =
     filter (\<lambda>x. \<exists>ps u ss. label x = ps @ u @ ss \<and> list_all2 equal_ignoring_case u t) opts"
    unfolding lower toLowerCase_substring ..
  moreover have "filterOptions opts (Str (toLowerCase t)) = filterOptions opts (Str t)"
    by (simp add: toLowerCase_idem)
  moreover have "filterOptions
     [\<lparr>value' = ''IO'', label = ''British Indian Ocean Territory'', preferred = p1\<rparr>,
      \<lparr>value' = ''IN'', label = ''India'', preferred = p2\<rparr>,
      \<lparr>value' = ''ID'', label = ''Indonesia'', preferred = p3\<rparr>] (Str ''o'') =
     [\<lparr>value' = ''IO'', label = ''British Indian Ocean Territory'', preferred = p1\<rparr>,
      \<lparr>value' = ''ID'', label = ''Indonesia'', preferred = p3\<rparr>]"
    by (simp add: ground)
  moreover have "filterOptions
     [\<lparr>value' = ''IO'', label = ''British Indian Ocean Territory'', preferred = p1\<rparr>,
      \<lparr>value' = ''IN'', label = ''India'', preferred = p2\<rparr>,
      \<lparr>value' = ''ID'', label = ''Indonesia'', preferred = p3\<rparr>] (Str ''O'') =
     [\<lparr>value' = ''IO'', label = ''British Indian Ocean Territory'', preferred = p1\<rparr>,
      \<lparr>value' = ''ID'', label = ''Indonesia'', preferred = p3\<rparr>]"
    by (simp add: ground)
  moreover have "filterOptions
     [\<lparr>value' = ''IO'', label = ''British Indian Ocean Territory'', preferred = p1\<rparr>,
      \<lparr>value' = ''IN'', label = ''India'', preferred = p2\<rparr>,
      \<lparr>value' = ''ID'', label = ''Indonesia'', preferred = p3\<rparr>] (Str ''INDIA'') =
     [\<lparr>value' = ''IO'', label = ''British Indian Ocean Territory'', preferred = p1\<rparr>,
      \<lparr>value' = ''IN'', label = ''India'', preferred = p2\<rparr>]"
    by (simp add: ground)
  moreover have "filterOptions
     [\<lparr>value' = ''EE'', label = [CHR 0xC9, CHR ''t'', CHR ''a'', CHR ''t''], preferred = p1\<rparr>,
      \<lparr>value' = ''IN'', label = ''India'', preferred = p2\<rparr>] (Str [CHR 0xE9]) =
     [\<lparr>value' = ''EE'', label = [CHR 0xC9, CHR ''t'', CHR ''a'', CHR ''t''], preferred = p1\<rparr>]"
    by (simp add: ground)
  ultimately show ?thesis using lower by simp
qed

text \<open>
  C1. \<^verbatim>\<open>innerToOuter\<close>, for an edit \<open>t\<close> of the inner surface once the input
  \<^verbatim>\<open>options\<close> has been assigned (\<open>opts\<close> is the current option set). With
  \<^verbatim>\<open>allowNonOptionValue\<close> false: when no option has the label \<open>t\<close>, the stream emits
  nothing and \<^verbatim>\<open>emitOutgoingValue\<close> is not called; when some option has the label
  \<open>t\<close>, the value of such an option is emitted and handed to \<^verbatim>\<open>emitOutgoingValue\<close>
  (the first one in the set, which is the only one when labels are not repeated). With
  \<^verbatim>\<open>allowNonOptionValue\<close> true the text itself is emitted.
\<close>

theorem innerToOuter_translation:
  assumes "options_emitted c = h @ [opts]"
  shows "(\<not> allowNonOptionValue c \<and> (\<forall>x \<in> set opts. Str (label x) \<noteq> t) \<longrightarrow>
            innerToOuter (allowNonOptionValue c) (options_S c) t = [] \<and>
            outgoing (inputValue t c) = outgoing c) \<and>
         (\<not> allowNonOptionValue c \<and> (\<exists>x \<in> set opts. Str (label x) = t) \<longrightarrow>
            (\<exists>x \<in> set opts. Str (label x) = t \<and>
               find (\<lambda>x. Str (label x) = t) opts = Some x \<and>
               innerToOuter (allowNonOptionValue c) (options_S c) t = [Str (value' x)] \<and>
               outgoing (inputValue t c) = outgoing c @ [Str (value' x)])) \<and>
         (\<not> allowNonOptionValue c \<and> distinct (map label opts) \<longrightarrow>
            (\<forall>x \<in> set opts. Str (label x) = t \<longrightarrow>
               innerToOuter (allowNonOptionValue c) (options_S c) t = [Str (value' x)] \<and>
               outgoing (inputValue t c) = outgoing c @ [Str (value' x)])) \<and>
         (allowNonOptionValue c \<longrightarrow>
            innerToOuter (allowNonOptionValue c) (options_S c) t = [t] \<and>
            outgoing (inputValue t c) = outgoing c @ [t])"
proof -
  note eq = innerToOuter_options [OF assms, of _ t]
  have none: "innerToOuter False (options_S c) t = []" if "\<forall>x \<in> set opts. Str (label x) \<noteq> t"
  proof -
    from that have "find (\<lambda>x. Str (label x) = t) opts = None"
      by (simp add: find_None_iff)
    then show ?thesis by (simp add: eq)
  qed
  have some: "innerToOuter False (options_S c) t = [Str (value' x)]"
    if "find (\<lambda>x. Str (label x) = t) opts = Some x" for x
    using that by (simp add: eq)
  have first: "\<exists>x \<in> set opts. Str (label x) = t \<and> find (\<lambda>x. Str (label x) = t) opts = Some x"
    if "\<exists>x \<in> set opts. Str (label x) = t"
  proof -
    from that have "find (\<lambda>x. Str (label x) = t) opts \<noteq> None"
      by (auto simp: find_None_iff)
    then obtain x where x: "find (\<lambda>x. Str (label x) = t) opts = Some x" by blast
    then have "x \<in> set opts \<and> Str (label x) = t"
      by (auto simp: find_Some_iff)
    with x show ?thesis by blast
  qed
  have uniq: "find (\<lambda>y. Str (label y) = t) opts = Some x"
    if "distinct (map label opts)" "x \<in> set opts" "Str (label x) = t" for x
  proof -
    from that(1) have "distinct (map (\<lambda>y. Str (label y)) opts)"
      by (auto simp: distinct_map inj_on_def)
    from find_distinct [OF this that(2) that(3)] show ?thesis .
  qed
  have out: "outgoing (inputValue t c) =
      outgoing c @ innerToOuter (allowNonOptionValue c) (options_S c) t"
    by (simp add: inputValue_fields)
  have dropped: "\<not> allowNonOptionValue c \<and> (\<forall>x \<in> set opts. Str (label x) \<noteq> t) \<longrightarrow>
      innerToOuter (allowNonOptionValue c) (options_S c) t = [] \<and>
      outgoing (inputValue t c) = outgoing c"
    using none out by simp
  have matched: "\<not> allowNonOptionValue c \<and> (\<exists>x \<in> set opts. Str (label x) = t) \<longrightarrow>
      (\<exists>x \<in> set opts. Str (label x) = t \<and>
         find (\<lambda>x. Str (label x) = t) opts = Some x \<and>
         innerToOuter (allowNonOptionValue c) (options_S c) t = [Str (value' x)] \<and>
         outgoing (inputValue t c) = outgoing c @ [Str (value' x)])"
  proof (intro impI, elim conjE)
    assume na: "\<not> allowNonOptionValue c" and ex: "\<exists>x \<in> set opts. Str (label x) = t"
    from first [OF ex] obtain x where x: "x \<in> set opts" "Str (label x) = t"
      "find (\<lambda>x. Str (label x) = t) opts = Some x" by blast
    from some [OF x(3)] na out
    have "innerToOuter (allowNonOptionValue c) (options_S c) t = [Str (value' x)] \<and>
        outgoing (inputValue t c) = outgoing c @ [Str (value' x)]" by simp
    with x show "\<exists>x \<in> set opts. Str (label x) = t \<and>
         find (\<lambda>x. Str (label x) = t) opts = Some x \<and>
         innerToOuter (allowNonOptionValue c) (options_S c) t = [Str (value' x)] \<and>
         outgoing (inputValue t c) = outgoing c @ [Str (value' x)]" by blast
  qed
  have only: "\<not> allowNonOptionValue c \<and> distinct (map label opts) \<longrightarrow>
      (\<forall>x \<in> set opts. Str (label x) = t \<longrightarrow>
         innerToOuter (allowNonOptionValue c) (options_S c) t = [Str (value' x)] \<and>
         outgoing (inputValue t c) = outgoing c @ [Str (value' x)])"
  proof (intro impI ballI, elim conjE)
    fix x
    assume na: "\<not> allowNonOptionValue c" and d: "distinct (map label opts)"
      and x: "x \<in> set opts" "Str (label x) = t"
    from some [OF uniq [OF d x]] na out
    show "innerToOuter (allowNonOptionValue c) (options_S c) t = [Str (value' x)] \<and>
        outgoing (inputValue t c) = outgoing c @ [Str (value' x)]" by simp
  qed
  have free: "allowNonOptionValue c \<longrightarrow>
      innerToOuter (allowNonOptionValue c) (options_S c) t = [t] \<and>
      outgoing (inputValue t c) = outgoing c @ [t]"
    using out by (simp add: eq)
  from dropped matched only free show ?thesis by blast
qed

text \<open>The theorem at the option set of the tests, with \<^verbatim>\<open>asd\<close> and \<^verbatim>\<open>Indonesia\<close>.\<close>

theorem innerToOuter_translation_witness:
  "outgoing (inputValue (Str ''asd'') (setOptions options (init False))) = [] \<and>
   outgoing (inputValue (Str ''Indonesia'') (setOptions options (init False))) = [Str ''ID''] \<and>
   outgoing (inputValue (Str ''asd'') (setOptions options (init True))) = [Str ''asd'']"
proof -
  have o: "options_emitted (setOptions options (init a)) = [] @ [options]" for a
    by (simp add: options_emitted_setOptions init_def)
  have a: "allowNonOptionValue (setOptions options (init a)) = a"
    and g: "outgoing (setOptions options (init a)) = []" for a
    by (simp_all add: setOptions_fields init_def)
  have d: "distinct (map label options)" and m: "idOption \<in> set options"
    and u: "\<forall>x \<in> set options. Str (label x) \<noteq> Str ''asd''"
    by (simp_all add: options_def ioOption_def inOption_def idOption_def)
  from innerToOuter_translation [OF o, of False "Str ''asd''"] a [of False] g [of False] u
  have 1: "outgoing (inputValue (Str ''asd'') (setOptions options (init False))) = []"
    by simp
  from innerToOuter_translation [OF o, of False "Str ''Indonesia''"] a [of False] g [of False] d m
  have 2: "outgoing (inputValue (Str ''Indonesia'') (setOptions options (init False))) = [Str ''ID'']"
    by (auto simp: idOption_def)
  from innerToOuter_translation [OF o, of True "Str ''asd''"] a [of True] g [of True]
  have 3: "outgoing (inputValue (Str ''asd'') (setOptions options (init True))) = [Str ''asd'']"
    by simp
  from 1 2 3 show ?thesis by simp
qed

text \<open>
  C2. \<^verbatim>\<open>outerToInner\<close>, for a value \<open>v\<close> from the outside once the input
  \<^verbatim>\<open>options\<close> has been assigned (\<open>opts\<close> is the current option set): when some
  option has the value \<open>v\<close>, the result, which is written to the inner control, is the
  label of such an option (the first one, which is the only one when values are unique);
  when none has, it is \<open>v\<close> itself if \<^verbatim>\<open>allowNonOptionValue\<close> is true and the empty
  string if it is false.
\<close>

theorem outerToInner_translation:
  assumes "options_emitted c = h @ [opts]"
  shows "((\<exists>x \<in> set opts. Str (value' x) = v) \<longrightarrow>
            (\<exists>x \<in> set opts. Str (value' x) = v \<and>
               find (\<lambda>x. Str (value' x) = v) opts = Some x \<and>
               outerToInner (allowNonOptionValue c) (options_S c) v = [Str (label x)] \<and>
               formControl_value (handleIncomingValue v c) = Str (label x))) \<and>
         (distinct (map value' opts) \<longrightarrow>
            (\<forall>x \<in> set opts. Str (value' x) = v \<longrightarrow>
               outerToInner (allowNonOptionValue c) (options_S c) v = [Str (label x)] \<and>
               formControl_value (handleIncomingValue v c) = Str (label x))) \<and>
         ((\<forall>x \<in> set opts. Str (value' x) \<noteq> v) \<and> allowNonOptionValue c \<longrightarrow>
            outerToInner (allowNonOptionValue c) (options_S c) v = [v] \<and>
            formControl_value (handleIncomingValue v c) = v) \<and>
         ((\<forall>x \<in> set opts. Str (value' x) \<noteq> v) \<and> \<not> allowNonOptionValue c \<longrightarrow>
            outerToInner (allowNonOptionValue c) (options_S c) v = [Str ''''] \<and>
            formControl_value (handleIncomingValue v c) = Str '''')"
proof -
  note eq = outerToInner_options [OF assms, of "allowNonOptionValue c" v]
  have written: "formControl_value (handleIncomingValue v c) = t"
    if "outerToInner (allowNonOptionValue c) (options_S c) v = [t]" for t
    using handleIncomingValue_options(1) [OF assms that] .
  have some: "outerToInner (allowNonOptionValue c) (options_S c) v = [Str (label x)]"
    if "find (\<lambda>x. Str (value' x) = v) opts = Some x" for x
    using that by (simp add: eq)
  have none: "outerToInner (allowNonOptionValue c) (options_S c) v =
      [if allowNonOptionValue c then v else Str '''']"
    if "\<forall>x \<in> set opts. Str (value' x) \<noteq> v"
  proof -
    from that have "find (\<lambda>x. Str (value' x) = v) opts = None"
      by (simp add: find_None_iff)
    then show ?thesis by (simp add: eq)
  qed
  have found: "(\<exists>x \<in> set opts. Str (value' x) = v) \<longrightarrow>
      (\<exists>x \<in> set opts. Str (value' x) = v \<and>
         find (\<lambda>x. Str (value' x) = v) opts = Some x \<and>
         outerToInner (allowNonOptionValue c) (options_S c) v = [Str (label x)] \<and>
         formControl_value (handleIncomingValue v c) = Str (label x))"
  proof
    assume "\<exists>x \<in> set opts. Str (value' x) = v"
    then have "find (\<lambda>x. Str (value' x) = v) opts \<noteq> None"
      by (auto simp: find_None_iff)
    then obtain x where x: "find (\<lambda>x. Str (value' x) = v) opts = Some x" by blast
    then have "x \<in> set opts \<and> Str (value' x) = v"
      by (auto simp: find_Some_iff)
    with x some [OF x] written [OF some [OF x]]
    show "\<exists>x \<in> set opts. Str (value' x) = v \<and>
         find (\<lambda>x. Str (value' x) = v) opts = Some x \<and>
         outerToInner (allowNonOptionValue c) (options_S c) v = [Str (label x)] \<and>
         formControl_value (handleIncomingValue v c) = Str (label x)" by blast
  qed
  have only: "distinct (map value' opts) \<longrightarrow>
      (\<forall>x \<in> set opts. Str (value' x) = v \<longrightarrow>
         outerToInner (allowNonOptionValue c) (options_S c) v = [Str (label x)] \<and>
         formControl_value (handleIncomingValue v c) = Str (label x))"
  proof (intro impI ballI)
    fix x
    assume d: "distinct (map value' opts)" and x: "x \<in> set opts" "Str (value' x) = v"
    from d have "distinct (map (\<lambda>y. Str (value' y)) opts)"
      by (auto simp: distinct_map inj_on_def)
    from find_distinct [OF this x] have f: "find (\<lambda>y. Str (value' y) = v) opts = Some x" .
    from some [OF f] written [OF some [OF f]]
    show "outerToInner (allowNonOptionValue c) (options_S c) v = [Str (label x)] \<and>
         formControl_value (handleIncomingValue v c) = Str (label x)" by simp
  qed
  have raw: "(\<forall>x \<in> set opts. Str (value' x) \<noteq> v) \<and> allowNonOptionValue c \<longrightarrow>
      outerToInner (allowNonOptionValue c) (options_S c) v = [v] \<and>
      formControl_value (handleIncomingValue v c) = v"
  proof (intro impI, elim conjE)
    assume n: "\<forall>x \<in> set opts. Str (value' x) \<noteq> v" and a: "allowNonOptionValue c"
    from none [OF n] a have o: "outerToInner (allowNonOptionValue c) (options_S c) v = [v]"
      by simp
    with written [OF o] show "outerToInner (allowNonOptionValue c) (options_S c) v = [v] \<and>
      formControl_value (handleIncomingValue v c) = v" by simp
  qed
  have empty: "(\<forall>x \<in> set opts. Str (value' x) \<noteq> v) \<and> \<not> allowNonOptionValue c \<longrightarrow>
      outerToInner (allowNonOptionValue c) (options_S c) v = [Str ''''] \<and>
      formControl_value (handleIncomingValue v c) = Str ''''"
  proof (intro impI, elim conjE)
    assume n: "\<forall>x \<in> set opts. Str (value' x) \<noteq> v" and a: "\<not> allowNonOptionValue c"
    from none [OF n] a have o: "outerToInner (allowNonOptionValue c) (options_S c) v = [Str '''']"
      by simp
    with written [OF o] show "outerToInner (allowNonOptionValue c) (options_S c) v = [Str ''''] \<and>
      formControl_value (handleIncomingValue v c) = Str ''''" by simp
  qed
  from found only raw empty show ?thesis by blast
qed

text \<open>The theorem at the option set of the tests, with \<^verbatim>\<open>ID\<close> and an unknown \<^verbatim>\<open>XX\<close>.\<close>

theorem outerToInner_translation_witness:
  "formControl_value (handleIncomingValue (Str ''ID'') (setOptions options (init False))) =
     Str ''Indonesia'' \<and>
   formControl_value (handleIncomingValue (Str ''XX'') (setOptions options (init True))) =
     Str ''XX'' \<and>
   formControl_value (handleIncomingValue (Str ''XX'') (setOptions options (init False))) =
     Str ''''"
proof -
  have o: "options_emitted (setOptions options (init a)) = [] @ [options]" for a
    by (simp add: options_emitted_setOptions init_def)
  have a: "allowNonOptionValue (setOptions options (init a)) = a" for a
    by (simp add: setOptions_fields init_def)
  have d: "distinct (map value' options)" and m: "idOption \<in> set options"
    and u: "\<forall>x \<in> set options. Str (value' x) \<noteq> Str ''XX''"
    by (simp_all add: options_def ioOption_def inOption_def idOption_def)
  from outerToInner_translation [OF o, of "Str ''ID''" False] d m
  have 1: "formControl_value (handleIncomingValue (Str ''ID'') (setOptions options (init False))) =
      Str ''Indonesia''"
    by (auto simp: idOption_def)
  from outerToInner_translation [OF o, of "Str ''XX''" True] a [of True] u
  have 2: "formControl_value (handleIncomingValue (Str ''XX'') (setOptions options (init True))) =
      Str ''XX''"
    by simp
  from outerToInner_translation [OF o, of "Str ''XX''" False] a [of False] u
  have 3: "formControl_value (handleIncomingValue (Str ''XX'') (setOptions options (init False))) =
      Str ''''"
    by simp
  from 1 2 3 show ?thesis by simp
qed

lemma handleIncomingValue_repeat:
  assumes "options_emitted c = h @ [opts]"
    and "outerToInner (allowNonOptionValue c) (options_S c) v = [t]"
  shows "value_log (handleIncomingValue v (handleIncomingValue v c)) =
           value_log (handleIncomingValue v c)"
    and "filteredOptions_log (handleIncomingValue v (handleIncomingValue v c)) =
           filteredOptions_log (handleIncomingValue v c)"
    and "value_last (handleIncomingValue v (handleIncomingValue v c)) =
           value_last (handleIncomingValue v c)"
proof -
  let ?c' = "handleIncomingValue v c"
  let ?l = "declareLatestValueLabel (v, opts)"
  have o': "options_emitted ?c' = h @ [opts]"
    by (simp add: handleIncomingValue_fields assms(1))
  have a': "allowNonOptionValue ?c' = allowNonOptionValue c"
    by (simp add: handleIncomingValue_fields)
  have s': "options_S ?c' = options_S c"
    by (simp add: options_S_def handleIncomingValue_fields)
  have last: "value_last ?c' = Some ?l"
    using handleIncomingValue_options(4) [OF assms] .
  have step: "handleIncomingValue v ?c' =
      value_next ?l ((outerToInner_tap t ?c')\<lparr>latestValueLabel := Some ?l\<rparr>)"
    using assms(2)
    by (simp add: handleIncomingValue_def [of v ?c'] a' s'
        latestValue_next_options [where h = h and opts = opts] outerToInner_tap_def o')
  have "value_last ((outerToInner_tap t ?c')\<lparr>latestValueLabel := Some ?l\<rparr>) = Some ?l"
    using last by (simp add: outerToInner_tap_def)
  then have same: "handleIncomingValue v ?c' = (outerToInner_tap t ?c')\<lparr>latestValueLabel := Some ?l\<rparr>"
    using step by (simp add: value_next_repeat)
  show "value_log (handleIncomingValue v ?c') = value_log ?c'"
    and "filteredOptions_log (handleIncomingValue v ?c') = filteredOptions_log ?c'"
    and "value_last (handleIncomingValue v ?c') = value_last ?c'"
    by (simp_all add: same outerToInner_tap_def)
qed

text \<open>
  C3 as stated fails: with the option set of the tests assigned, two calls in a row of
  \<^verbatim>\<open>handleIncomingValue\<close> with \<^verbatim>\<open>ID\<close> write the inner control twice.
\<close>

theorem handleIncomingValue_twice_counterexample:
  "setValue_log (handleIncomingValue (Str ''ID'')
     (handleIncomingValue (Str ''ID'') (setOptions options (init False)))) =
     [Str ''Indonesia'', Str ''Indonesia''] \<and>
   setValue_log (setOptions options (init False)) = []"
  by (simp add: handleIncomingValue_def outerToInner_def concatLatestFrom_def withLatestFrom_def
      options_S_def setOptions_def init_def filteredOptions_emit_def latestValue_next_def
      value_next_def declareLatestValueLabel_def outerToInner_tap_def Let_def
      options_def ioOption_def inOption_def idOption_def)

text \<open>
  C3, amended. \<^verbatim>\<open>outerToInner$\<close> has no \<^verbatim>\<open>distinctUntilChanged\<close>: once the input
  \<^verbatim>\<open>options\<close> has been assigned, each call of \<^verbatim>\<open>handleIncomingValue\<close> writes the
  translated text \<open>t\<close> to the inner control with \<^verbatim>\<open>emitEvent: false\<close>, so two calls
  in a row with the same value make two writes of the same text, and neither calls
  \<^verbatim>\<open>emitOutgoingValue\<close>. The repeat is dropped only on the merged active-text stream
  \<^verbatim>\<open>value$\<close>: the second call makes no emission of \<^verbatim>\<open>value$\<close> and none of
  \<^verbatim>\<open>filteredOptions$\<close>.
\<close>

theorem handleIncomingValue_twice:
  assumes "options_emitted c = h @ [opts]"
  shows "\<exists>t. outerToInner (allowNonOptionValue c) (options_S c) v = [t] \<and>
           setValue_log (handleIncomingValue v c) = setValue_log c @ [t] \<and>
           setValue_log (handleIncomingValue v (handleIncomingValue v c)) = setValue_log c @ [t, t] \<and>
           formControl_value (handleIncomingValue v (handleIncomingValue v c)) = t \<and>
           outgoing (handleIncomingValue v (handleIncomingValue v c)) = outgoing c \<and>
           value_log (handleIncomingValue v (handleIncomingValue v c)) =
             value_log (handleIncomingValue v c) \<and>
           filteredOptions_log (handleIncomingValue v (handleIncomingValue v c)) =
             filteredOptions_log (handleIncomingValue v c)"
proof -
  let ?c' = "handleIncomingValue v c"
  from outerToInner_single [OF assms] obtain t
    where t: "outerToInner (allowNonOptionValue c) (options_S c) v = [t]" by blast
  have o': "options_emitted ?c' = h @ [opts]"
    by (simp add: handleIncomingValue_fields assms)
  have t': "outerToInner (allowNonOptionValue ?c') (options_S ?c') v = [t]"
    using t by (simp add: options_S_def handleIncomingValue_fields)
  have "setValue_log ?c' = setValue_log c @ [t]"
    using handleIncomingValue_options(2) [OF assms t] .
  moreover have "setValue_log (handleIncomingValue v ?c') = setValue_log ?c' @ [t]"
    using handleIncomingValue_options(2) [OF o' t'] .
  moreover have "formControl_value (handleIncomingValue v ?c') = t"
    using handleIncomingValue_options(1) [OF o' t'] .
  moreover have "outgoing (handleIncomingValue v ?c') = outgoing c"
    by (simp add: handleIncomingValue_fields)
  moreover note handleIncomingValue_repeat(1,2) [OF assms t]
  ultimately show ?thesis using t by simp
qed

text \<open>The theorem at the option set of the tests, with \<^verbatim>\<open>IN\<close> twice.\<close>

theorem handleIncomingValue_twice_witness:
  "setValue_log (handleIncomingValue (Str ''IN'')
     (handleIncomingValue (Str ''IN'') (setOptions options (init False)))) =
     [Str ''India'', Str ''India''] \<and>
   value_log (handleIncomingValue (Str ''IN'')
     (handleIncomingValue (Str ''IN'') (setOptions options (init False)))) =
     value_log (handleIncomingValue (Str ''IN'') (setOptions options (init False)))"
proof -
  have o: "options_emitted (setOptions options (init False)) = [] @ [options]"
    by (simp add: options_emitted_setOptions init_def)
  have t: "outerToInner (allowNonOptionValue (setOptions options (init False)))
      (options_S (setOptions options (init False))) (Str ''IN'') = [Str ''India'']"
    by (subst outerToInner_options [OF o])
      (simp add: options_def ioOption_def inOption_def idOption_def)
  have l: "setValue_log (setOptions options (init False)) = []"
    by (simp add: setOptions_fields init_def)
  from handleIncomingValue_twice [OF o, of "Str ''IN''"] t l show ?thesis by auto
qed

lemma declareLatestValueLabel_found:
  "distinct (map value' opts) \<Longrightarrow> x \<in> set opts \<Longrightarrow>
   declareLatestValueLabel (Str (value' x), opts) = Str (label x)"
proof -
  assume d: "distinct (map value' opts)" and x: "x \<in> set opts"
  from d have "distinct (map (\<lambda>y. Str (value' y)) opts)"
    by (auto simp: distinct_map inj_on_def)
  from find_distinct [OF this x refl]
  show ?thesis by (simp add: declareLatestValueLabel_def)
qed

lemma declareLatestValueLabel_none:
  "\<forall>x \<in> set opts. Str (value' x) \<noteq> v \<Longrightarrow> declareLatestValueLabel (v, opts) = Undefined"
proof -
  assume "\<forall>x \<in> set opts. Str (value' x) \<noteq> v"
  then have "find (\<lambda>x. Str (value' x) = v) opts = None"
    by (simp add: find_None_iff)
  then show ?thesis by (simp add: declareLatestValueLabel_def)
qed

lemma innerToOuter_no_match:
  assumes "options_emitted c = h @ [opts]" and "\<not> allowNonOptionValue c"
    and "\<forall>y \<in> set opts. Str (label y) \<noteq> t"
  shows "innerToOuter (allowNonOptionValue c) (options_S c) t = []"
proof -
  from assms(3) have "find (\<lambda>x. Str (label x) = t) opts = None"
    by (simp add: find_None_iff)
  with assms(2) show ?thesis
    by (simp add: innerToOuter_options [OF assms(1)])
qed

lemma non_matching_edits:
  assumes "options_emitted c = h @ [opts]" and "\<not> allowNonOptionValue c"
    and "\<forall>t \<in> set ts. \<forall>y \<in> set opts. Str (label y) \<noteq> t"
  shows "options_emitted (fold inputValue ts c) = options_emitted c \<and>
         allowNonOptionValue (fold inputValue ts c) = allowNonOptionValue c \<and>
         outgoing (fold inputValue ts c) = outgoing c \<and>
         latestValueLabel (fold inputValue ts c) = latestValueLabel c \<and>
         setValue_log (fold inputValue ts c) = setValue_log c"
  using assms
proof (induction ts arbitrary: c)
  case Nil
  then show ?case by simp
next
  case (Cons t ts)
  have drop: "innerToOuter (allowNonOptionValue c) (options_S c) t = []"
    using innerToOuter_no_match [OF Cons.prems(1,2)] Cons.prems(3) by simp
  have o: "options_emitted (inputValue t c) = h @ [opts]"
    and a: "\<not> allowNonOptionValue (inputValue t c)"
    using Cons.prems(1,2) by (simp_all add: inputValue_fields)
  from Cons.prems(3) have rest: "\<forall>t \<in> set ts. \<forall>y \<in> set opts. Str (label y) \<noteq> t" by simp
  from Cons.IH [OF o a rest] drop show ?case
    by (simp add: inputValue_fields inputValue_dropped)
qed

lemma focusOut_same:
  "onEscapePressed c = handleFocusOut c" "monitorFocusOut None c = handleFocusOut c"
  by (simp_all add: onEscapePressed_def monitorFocusOut_def)

text \<open>
  C4. On the escape key (\<^verbatim>\<open>onEscapePressed\<close>) and on loss of focus
  (\<^verbatim>\<open>monitorFocusOut\<close> with an empty origin), once \<^verbatim>\<open>latestValueLabel$\<close> has emitted a
  label \<open>l\<close>: the inner control holds \<open>l\<close> afterwards; when its text differed, the
  component has written \<open>l\<close> with \<^verbatim>\<open>emitEvent: false\<close>; \<^verbatim>\<open>emitOutgoingValue\<close> is not
  called and \<^verbatim>\<open>value$\<close> sees no edit. That label is the label of the option whose value
  is the latest value, whether the latest value came from outside or from an edit, when
  the option set was assigned before and its values are unique. In particular, with
  \<^verbatim>\<open>allowNonOptionValue\<close> false: after an edit \<open>t\<close> that selects the option \<open>x\<close> and
  any edits \<open>ts\<close> that match no label, a loss of focus leaves the outer value at the
  value of \<open>x\<close> and the inner text at the label of \<open>x\<close>.
\<close>

theorem focus_out_resets_to_label:
  "(latestValueLabel s = Some l \<longrightarrow>
      formControl_value (onEscapePressed s) = l \<and>
      formControl_value (monitorFocusOut None s) = l \<and>
      (formControl_value s \<noteq> l \<longrightarrow>
         setValue_log (onEscapePressed s) = setValue_log s @ [l] \<and>
         setValue_log (monitorFocusOut None s) = setValue_log s @ [l]) \<and>
      (formControl_value s = l \<longrightarrow>
         onEscapePressed s = s \<and> monitorFocusOut None s = s) \<and>
      outgoing (onEscapePressed s) = outgoing s \<and>
      outgoing (monitorFocusOut None s) = outgoing s \<and>
      value_log (onEscapePressed s) = value_log s \<and>
      value_log (monitorFocusOut None s) = value_log s) \<and>
   (options_emitted c = h @ [opts] \<and> distinct (map value' opts) \<and> x \<in> set opts \<longrightarrow>
      latestValueLabel (handleIncomingValue (Str (value' x)) c) = Some (Str (label x)) \<and>
      (innerToOuter (allowNonOptionValue c) (options_S c) t = [Str (value' x)] \<longrightarrow>
         latestValueLabel (inputValue t c) = Some (Str (label x)))) \<and>
   (options_emitted c = h @ [opts] \<and> distinct (map value' opts) \<and>
    \<not> allowNonOptionValue c \<and> find (\<lambda>y. Str (label y) = t) opts = Some x \<and>
    (\<forall>t \<in> set ts. \<forall>y \<in> set opts. Str (label y) \<noteq> t) \<longrightarrow>
      outgoing (inputValue t c) = outgoing c @ [Str (value' x)] \<and>
      outgoing (monitorFocusOut None (fold inputValue ts (inputValue t c))) =
        outgoing c @ [Str (value' x)] \<and>
      formControl_value (monitorFocusOut None (fold inputValue ts (inputValue t c))) =
        Str (label x) \<and>
      formControl_value (onEscapePressed (fold inputValue ts (inputValue t c))) =
        Str (label x))"
proof -
  have step: "latestValueLabel s = Some l \<longrightarrow>
      formControl_value (onEscapePressed s) = l \<and>
      formControl_value (monitorFocusOut None s) = l \<and>
      (formControl_value s \<noteq> l \<longrightarrow>
         setValue_log (onEscapePressed s) = setValue_log s @ [l] \<and>
         setValue_log (monitorFocusOut None s) = setValue_log s @ [l]) \<and>
      (formControl_value s = l \<longrightarrow>
         onEscapePressed s = s \<and> monitorFocusOut None s = s) \<and>
      outgoing (onEscapePressed s) = outgoing s \<and>
      outgoing (monitorFocusOut None s) = outgoing s \<and>
      value_log (onEscapePressed s) = value_log s \<and>
      value_log (monitorFocusOut None s) = value_log s"
    by (simp add: focusOut_same handleFocusOut_fields handleFocusOut_value)
      (simp add: handleFocusOut_def)
  have latest: "options_emitted c = h @ [opts] \<and> distinct (map value' opts) \<and> x \<in> set opts \<longrightarrow>
      latestValueLabel (handleIncomingValue (Str (value' x)) c) = Some (Str (label x)) \<and>
      (innerToOuter (allowNonOptionValue c) (options_S c) t = [Str (value' x)] \<longrightarrow>
         latestValueLabel (inputValue t c) = Some (Str (label x)))"
  proof (intro impI conjI, goal_cases)
    case 1
    then have o: "options_emitted c = h @ [opts]" and d: "distinct (map value' opts)"
      and x: "x \<in> set opts" by simp_all
    from outerToInner_single [OF o] obtain u
      where "outerToInner (allowNonOptionValue c) (options_S c) (Str (value' x)) = [u]" by blast
    from handleIncomingValue_options(3) [OF o this] declareLatestValueLabel_found [OF d x]
    show ?case by simp
  next
    case 2
    then have o: "options_emitted c = h @ [opts]" and d: "distinct (map value' opts)"
      and x: "x \<in> set opts" by simp_all
    from inputValue_emitted [OF o 2(2)] declareLatestValueLabel_found [OF d x]
    show ?case by simp
  qed
  have scenario: "options_emitted c = h @ [opts] \<and> distinct (map value' opts) \<and>
    \<not> allowNonOptionValue c \<and> find (\<lambda>y. Str (label y) = t) opts = Some x \<and>
    (\<forall>t \<in> set ts. \<forall>y \<in> set opts. Str (label y) \<noteq> t) \<longrightarrow>
      outgoing (inputValue t c) = outgoing c @ [Str (value' x)] \<and>
      outgoing (monitorFocusOut None (fold inputValue ts (inputValue t c))) =
        outgoing c @ [Str (value' x)] \<and>
      formControl_value (monitorFocusOut None (fold inputValue ts (inputValue t c))) =
        Str (label x) \<and>
      formControl_value (onEscapePressed (fold inputValue ts (inputValue t c))) =
        Str (label x)"
  proof (intro impI, elim conjE)
    assume o: "options_emitted c = h @ [opts]" and d: "distinct (map value' opts)"
      and a: "\<not> allowNonOptionValue c" and f: "find (\<lambda>y. Str (label y) = t) opts = Some x"
      and ts: "\<forall>t \<in> set ts. \<forall>y \<in> set opts. Str (label y) \<noteq> t"
    let ?c1 = "inputValue t c"
    let ?c2 = "fold inputValue ts ?c1"
    from f have x: "x \<in> set opts" by (auto simp: find_Some_iff)
    from a f have e: "innerToOuter (allowNonOptionValue c) (options_S c) t = [Str (value' x)]"
      by (simp add: innerToOuter_options [OF o])
    then have out1: "outgoing ?c1 = outgoing c @ [Str (value' x)]"
      by (simp add: inputValue_fields)
    from inputValue_emitted [OF o e] declareLatestValueLabel_found [OF d x]
    have l1: "latestValueLabel ?c1 = Some (Str (label x))" by simp
    have o1: "options_emitted ?c1 = h @ [opts]" and a1: "\<not> allowNonOptionValue ?c1"
      using o a by (simp_all add: inputValue_fields)
    from non_matching_edits [OF o1 a1 ts] out1 l1
    have out2: "outgoing ?c2 = outgoing c @ [Str (value' x)]"
      and l2: "latestValueLabel ?c2 = Some (Str (label x))" by simp_all
    from out1 out2 handleFocusOut_value [OF l2]
    show "outgoing ?c1 = outgoing c @ [Str (value' x)] \<and>
      outgoing (monitorFocusOut None ?c2) = outgoing c @ [Str (value' x)] \<and>
      formControl_value (monitorFocusOut None ?c2) = Str (label x) \<and>
      formControl_value (onEscapePressed ?c2) = Str (label x)"
      by (simp add: focusOut_same handleFocusOut_fields)
  qed
  from step latest scenario show ?thesis by blast
qed

text \<open>
  The theorem on the scenario of the tests: Indonesia is selected, the text is cleared,
  \<^verbatim>\<open>qwe\<close> is typed key by key, and the focus is lost.
\<close>

theorem focus_out_resets_to_label_witness:
  "outgoing (monitorFocusOut None (fold inputValue [Str '''', Str ''q'', Str ''qw'', Str ''qwe'']
     (inputValue (Str ''Indonesia'') (setOptions options (init False))))) = [Str ''ID''] \<and>
   formControl_value (monitorFocusOut None (fold inputValue [Str '''', Str ''q'', Str ''qw'', Str ''qwe'']
     (inputValue (Str ''Indonesia'') (setOptions options (init False))))) = Str ''Indonesia'' \<and>
   formControl_value (fold inputValue [Str '''', Str ''q'', Str ''qw'', Str ''qwe'']
     (inputValue (Str ''Indonesia'') (setOptions options (init False)))) = Str ''qwe'' \<and>
   setValue_log (onEscapePressed (fold inputValue [Str '''', Str ''q'', Str ''qw'', Str ''qwe'']
     (inputValue (Str ''Indonesia'') (setOptions options (init False))))) = [Str ''Indonesia'']"
proof -
  let ?c = "setOptions options (init False)"
  let ?ts = "[Str '''', Str ''q'', Str ''qw'', Str ''qwe'']"
  let ?s = "fold inputValue ?ts (inputValue (Str ''Indonesia'') ?c)"
  have o: "options_emitted ?c = [] @ [options]"
    by (simp add: options_emitted_setOptions init_def)
  have a: "\<not> allowNonOptionValue ?c" and g: "outgoing ?c = []" and w: "setValue_log ?c = []"
    by (simp_all add: setOptions_fields init_def)
  have d: "distinct (map value' options)"
    and f: "find (\<lambda>y. Str (label y) = Str ''Indonesia'') options = Some idOption"
    and u: "\<forall>t \<in> set ?ts. \<forall>y \<in> set options. Str (label y) \<noteq> t"
    by (simp_all add: options_def ioOption_def inOption_def idOption_def)
  have typed: "formControl_value ?s = Str ''qwe''"
    by (simp add: inputValue_fields)
  have e: "innerToOuter (allowNonOptionValue ?c) (options_S ?c) (Str ''Indonesia'') =
      [Str (value' idOption)]"
    using a f by (simp add: innerToOuter_options [OF o])
  have o1: "options_emitted (inputValue (Str ''Indonesia'') ?c) = [] @ [options]"
    and a1: "\<not> allowNonOptionValue (inputValue (Str ''Indonesia'') ?c)"
    using o a by (simp_all add: inputValue_fields)
  have m: "idOption \<in> set options" by (simp add: options_def)
  from non_matching_edits [OF o1 a1 u] inputValue_emitted [OF o e]
    declareLatestValueLabel_found [OF d m] w
  have l: "latestValueLabel ?s = Some (Str (label idOption))"
    and w2: "setValue_log ?s = []"
    by (simp_all add: inputValue_fields)
  note T = focus_out_resets_to_label [where s = ?s and l = "Str (label idOption)" and c = ?c
      and h = "[]" and opts = options and x = idOption and t = "Str ''Indonesia''" and ts = ?ts]
  from T o a d f u g
  have C: "outgoing (monitorFocusOut None ?s) = [Str (value' idOption)] \<and>
      formControl_value (monitorFocusOut None ?s) = Str (label idOption)"
    by simp
  from T l typed w2
  have A: "setValue_log (onEscapePressed ?s) = [Str (label idOption)]"
    by (simp add: idOption_def)
  from C A typed show ?thesis by (simp add: idOption_def)
qed

text \<open>
  C9. When no option of the current set has the latest value \<open>v\<close> as its value, the label
  \<^verbatim>\<open>latestValueLabel$\<close> derives is \<^verbatim>\<open>undefined\<close>, and the escape key or a loss of
  focus leaves the inner control holding \<^verbatim>\<open>undefined\<close>. So with
  \<^verbatim>\<open>allowNonOptionValue\<close> true, free text \<open>v\<close> that matches no option's value is emitted
  as the outer value and is still the last value emitted after the focus is lost, while
  the inner control, which held \<open>v\<close>, is set to \<^verbatim>\<open>undefined\<close>.
\<close>

theorem unmatched_latest_value_clears_text:
  assumes "options_emitted c = h @ [opts]"
    and "\<forall>x \<in> set opts. Str (value' x) \<noteq> v"
  shows "latestValueLabel (handleIncomingValue v c) = Some Undefined \<and>
         formControl_value (monitorFocusOut None (handleIncomingValue v c)) = Undefined \<and>
         formControl_value (onEscapePressed (handleIncomingValue v c)) = Undefined \<and>
         (allowNonOptionValue c \<longrightarrow>
            formControl_value (inputValue v c) = v \<and>
            outgoing (inputValue v c) = outgoing c @ [v] \<and>
            latestValueLabel (inputValue v c) = Some Undefined \<and>
            formControl_value (monitorFocusOut None (inputValue v c)) = Undefined \<and>
            formControl_value (onEscapePressed (inputValue v c)) = Undefined \<and>
            (v \<noteq> Undefined \<longrightarrow>
               setValue_log (monitorFocusOut None (inputValue v c)) = setValue_log c @ [Undefined]) \<and>
            outgoing (monitorFocusOut None (inputValue v c)) = outgoing c @ [v] \<and>
            outgoing (onEscapePressed (inputValue v c)) = outgoing c @ [v])"
proof -
  note u = declareLatestValueLabel_none [OF assms(2)]
  from outerToInner_single [OF assms(1)] obtain t
    where "outerToInner (allowNonOptionValue c) (options_S c) v = [t]" by blast
  from handleIncomingValue_options(3) [OF assms(1) this] u
  have l: "latestValueLabel (handleIncomingValue v c) = Some Undefined" by simp
  have incoming: "latestValueLabel (handleIncomingValue v c) = Some Undefined \<and>
         formControl_value (monitorFocusOut None (handleIncomingValue v c)) = Undefined \<and>
         formControl_value (onEscapePressed (handleIncomingValue v c)) = Undefined"
    using l handleFocusOut_value [OF l] by (simp add: focusOut_same)
  have typed: "allowNonOptionValue c \<longrightarrow>
            formControl_value (inputValue v c) = v \<and>
            outgoing (inputValue v c) = outgoing c @ [v] \<and>
            latestValueLabel (inputValue v c) = Some Undefined \<and>
            formControl_value (monitorFocusOut None (inputValue v c)) = Undefined \<and>
            formControl_value (onEscapePressed (inputValue v c)) = Undefined \<and>
            (v \<noteq> Undefined \<longrightarrow>
               setValue_log (monitorFocusOut None (inputValue v c)) = setValue_log c @ [Undefined]) \<and>
            outgoing (monitorFocusOut None (inputValue v c)) = outgoing c @ [v] \<and>
            outgoing (onEscapePressed (inputValue v c)) = outgoing c @ [v]"
  proof
    assume a: "allowNonOptionValue c"
    then have e: "innerToOuter (allowNonOptionValue c) (options_S c) v = [v]"
      by (simp add: innerToOuter_options [OF assms(1)])
    from inputValue_emitted [OF assms(1) e] u
    have l': "latestValueLabel (inputValue v c) = Some Undefined" by simp
    have w: "v \<noteq> Undefined \<longrightarrow>
        setValue_log (handleFocusOut (inputValue v c)) = setValue_log c @ [Undefined]"
      using l' by (simp add: handleFocusOut_def inputValue_fields)
    from e l' handleFocusOut_value [OF l'] w
    show "formControl_value (inputValue v c) = v \<and>
            outgoing (inputValue v c) = outgoing c @ [v] \<and>
            latestValueLabel (inputValue v c) = Some Undefined \<and>
            formControl_value (monitorFocusOut None (inputValue v c)) = Undefined \<and>
            formControl_value (onEscapePressed (inputValue v c)) = Undefined \<and>
            (v \<noteq> Undefined \<longrightarrow>
               setValue_log (monitorFocusOut None (inputValue v c)) = setValue_log c @ [Undefined]) \<and>
            outgoing (monitorFocusOut None (inputValue v c)) = outgoing c @ [v] \<and>
            outgoing (onEscapePressed (inputValue v c)) = outgoing c @ [v]"
      by (simp add: focusOut_same handleFocusOut_fields inputValue_fields)
  qed
  from incoming typed show ?thesis by blast
qed

text \<open>The theorem on the free text \<^verbatim>\<open>asd\<close> with the option set of the tests.\<close>

theorem unmatched_latest_value_clears_text_witness:
  "formControl_value (inputValue (Str ''asd'') (setOptions options (init True))) = Str ''asd'' \<and>
   outgoing (inputValue (Str ''asd'') (setOptions options (init True))) = [Str ''asd''] \<and>
   formControl_value (monitorFocusOut None (inputValue (Str ''asd'') (setOptions options (init True))))
     = Undefined \<and>
   outgoing (monitorFocusOut None (inputValue (Str ''asd'') (setOptions options (init True))))
     = [Str ''asd'']"
proof -
  let ?c = "setOptions options (init True)"
  have o: "options_emitted ?c = [] @ [options]"
    by (simp add: options_emitted_setOptions init_def)
  have a: "allowNonOptionValue ?c" and g: "outgoing ?c = []"
    by (simp_all add: setOptions_fields init_def)
  have u: "\<forall>x \<in> set options. Str (value' x) \<noteq> Str ''asd''"
    by (simp add: options_def ioOption_def inOption_def idOption_def)
  from unmatched_latest_value_clears_text [OF o u] a g show ?thesis by simp
qed

subsection \<open>The operator \<^verbatim>\<open>concatLatestFrom\<close>\<close>

lemma replay_ReplaySubject: "h \<noteq> [] \<Longrightarrow> replay (ReplaySubject n h) \<noteq> [] \<and> last (replay (ReplaySubject n h)) = last h"
  by (cases h rule: rev_cases) auto

lemma replay_emitted: "emitted s = [] \<Longrightarrow> replay s = []"
  by (cases s) auto

lemma observablesAsArray_map:
  "observablesAsArray (map_observables f os) = map f (observablesAsArray os)"
  by (cases os) auto

text \<open>
  C5 as stated fails: a plain \<^verbatim>\<open>Subject\<close> that has emitted \<open>5\<close> replays nothing to
  the subscription the operator makes when the primary value \<open>1\<close> arrives, so the value
  is dropped although the secondary stream has emitted. With a \<^verbatim>\<open>ReplaySubject(1)\<close> in
  its place the pair is emitted.
\<close>

theorem concatLatestFrom_counterexample:
  "emitted (plain_store 0) = [5] \<and>
   run one_stream plain_store [Primary 1] = [] \<and>
   run one_stream replay_store [Primary 1] = [(1, [5])]"
  by (simp add: concatLatestFrom_def withLatestFrom_def one_stream_def plain_store_def
      replay_store_def)

text \<open>
  C5, amended. For a value \<open>v\<close> of the primary stream, the operator subscribes anew to
  the streams of the factory. It emits \<open>v\<close> with the last value each of them delivers to
  that new subscriber, at once, when each delivers one; otherwise \<open>v\<close> is dropped, and
  later values of the secondary streams emit nothing for it (an emission of a secondary
  stream only changes the store). A \<^verbatim>\<open>ReplaySubject\<close> that has emitted delivers its
  most recent value; a plain \<^verbatim>\<open>Subject\<close> delivers nothing, whatever it has emitted; a
  stream that has emitted nothing delivers nothing.
\<close>

theorem concatLatestFrom_replayed:
  "run factory store (Primary v # es) =
     (if \<forall>i \<in> set (observablesAsArray (factory v)). replay (store i) \<noteq> []
      then [(v, map (\<lambda>i. last (replay (store i))) (observablesAsArray (factory v)))]
      else []) @ run factory store es \<and>
   run factory store (Secondary i x # es) = run factory (store(i := next_value x (store i))) es \<and>
   (h \<noteq> [] \<longrightarrow> replay (ReplaySubject n h) \<noteq> [] \<and> last (replay (ReplaySubject n h)) = last h) \<and>
   replay (Subject h) = [] \<and>
   (emitted s = [] \<longrightarrow> replay s = [])"
proof -
  have "run factory store (Primary v # es) =
     (if \<forall>i \<in> set (observablesAsArray (factory v)). replay (store i) \<noteq> []
      then [(v, map (\<lambda>i. last (replay (store i))) (observablesAsArray (factory v)))]
      else []) @ run factory store es"
    by (simp add: concatLatestFrom_def withLatestFrom_def observablesAsArray_map list_all_iff
        comp_def)
  with replay_ReplaySubject [of h n] replay_emitted [of s] show ?thesis by simp
qed

text \<open>
  The theorem on a run with two replaying streams: the primary value \<open>1\<close> arrives when
  only the first has emitted and is dropped for good; \<open>2\<close> arrives when both have.
\<close>

theorem concatLatestFrom_replayed_witness:
  "run (\<lambda>v. Many [0, 1]) (\<lambda>i. ReplaySubject 1 [])
     [Secondary 0 (7 :: nat), Primary (1 :: nat), Secondary 1 8, Secondary 0 9, Primary 2] =
     [(2, [9, 8])]"
proof -
  let ?f = "\<lambda>v :: nat. Many [0 :: nat, 1]"
  let ?s0 = "\<lambda>i :: nat. ReplaySubject 1 ([] :: nat list)"
  let ?s1 = "?s0(0 := ReplaySubject 1 [7])"
  let ?s2 = "?s1(1 := ReplaySubject 1 [8], 0 := ReplaySubject 1 [7, 9])"
  have 1: "run ?f ?s0 [Secondary 0 7, Primary 1, Secondary 1 8, Secondary 0 9, Primary 2] =
      run ?f ?s1 [Primary 1, Secondary 1 8, Secondary 0 9, Primary 2]"
    by simp
  have 2: "run ?f ?s1 [Primary 1, Secondary 1 8, Secondary 0 9, Primary 2] =
      run ?f ?s1 [Secondary 1 8, Secondary 0 9, Primary 2]"
    using concatLatestFrom_replayed [where factory = ?f and store = ?s1 and v = 1
        and es = "[Secondary 1 8, Secondary 0 9, Primary 2]" and h = "[]" and n = 0
        and s = "Subject []" and i = 0 and x = 0]
    by simp
  have 3: "run ?f ?s1 [Secondary 1 8, Secondary 0 9, Primary 2] = run ?f ?s2 [Primary 2]"
    by simp
  have 4: "run ?f ?s2 [Primary 2] = [(2, [9, 8])]"
    using concatLatestFrom_replayed [where factory = ?f and store = ?s2 and v = 2 and es = "[]"
        and h = "[]" and n = 0 and s = "Subject []" and i = 0 and x = 0]
    by simp
  from 1 2 3 4 show ?thesis by simp
qed

subsection \<open>Patched methods\<close>

lemma invoke_patched:
  "invoke obj (methods(methodName \<mapsto> updatedFn fn (bind_this original obj))) methodName args w =
     (case fn None args w of
        (Throw e, w1) \<Rightarrow> (Throw e, w1)
      | (Return r1, w1) \<Rightarrow>
          (case original (Some obj) args w1 of
             (Throw e, w2) \<Rightarrow> (Throw e, w2)
           | (Return r2, w2) \<Rightarrow> (Return None, w2)))"
  by (simp add: invoke_def updatedFn_def bind_this_def)

text \<open>
  C7 as stated fails: \<open>push\<close> returns the new number of elements, \<open>3\<close>; once patched,
  with a callback that does nothing, the call still adds the element, and returns
  \<^verbatim>\<open>undefined\<close>.
\<close>

theorem patchObjectMethodWith_counterexample:
  "invoke 0 [''push'' \<mapsto> push] ''push'' [True] 2 = (Return (Some 3), 3) \<and>
   patchObjectMethodWith 0 [''push'' \<mapsto> push] ''push'' (logged_nothing) =
     Inr [''push'' \<mapsto> updatedFn logged_nothing (bind_this push 0)] \<and>
   invoke 0 [''push'' \<mapsto> updatedFn logged_nothing (bind_this push 0)] ''push'' [True] 2 =
     (Return None, 3)"
  by (simp add: patchObjectMethodWith_def invoke_def updatedFn_def bind_this_def push_def
      logged_nothing_def)

text \<open>
  C7, amended. For an object with a method under the name, \<^verbatim>\<open>patchObjectMethodWith\<close>
  replaces that method and no other. A call of the patched method first calls the
  callback with the arguments of the call, as a plain function; when the callback
  returns, it calls the original method, bound to the object, with the same arguments on
  the state the callback left; and when that returns, the call returns \<^verbatim>\<open>undefined\<close>,
  whatever the original method returned. A throw of the callback ends the call before
  the original method runs, and a throw of the original method is passed on.
\<close>

theorem patchObjectMethodWith_wraps:
  assumes "methods methodName = Some original"
  shows "\<exists>tbl.
           patchObjectMethodWith obj methods methodName fn = Inr tbl \<and>
           (\<forall>k. k \<noteq> methodName \<longrightarrow> tbl k = methods k) \<and>
           (\<forall>r1 w1 r2 w2.
              fn None args w = (Return r1, w1) \<and> original (Some obj) args w1 = (Return r2, w2) \<longrightarrow>
              invoke obj tbl methodName args w = (Return None, w2)) \<and>
           (\<forall>r1 w1 e w2.
              fn None args w = (Return r1, w1) \<and> original (Some obj) args w1 = (Throw e, w2) \<longrightarrow>
              invoke obj tbl methodName args w = (Throw e, w2)) \<and>
           (\<forall>e w1.
              fn None args w = (Throw e, w1) \<longrightarrow>
              invoke obj tbl methodName args w = (Throw e, w1))"
proof -
  let ?tbl = "methods(methodName \<mapsto> updatedFn fn (bind_this original obj))"
  have p: "patchObjectMethodWith obj methods methodName fn = Inr ?tbl"
    using assms by (simp add: patchObjectMethodWith_def)
  have others: "\<forall>k. k \<noteq> methodName \<longrightarrow> ?tbl k = methods k"
    by simp
  have both: "\<forall>r1 w1 r2 w2.
      fn None args w = (Return r1, w1) \<and> original (Some obj) args w1 = (Return r2, w2) \<longrightarrow>
      invoke obj ?tbl methodName args w = (Return None, w2)"
    by (simp add: invoke_patched)
  have second: "\<forall>r1 w1 e w2.
      fn None args w = (Return r1, w1) \<and> original (Some obj) args w1 = (Throw e, w2) \<longrightarrow>
      invoke obj ?tbl methodName args w = (Throw e, w2)"
    by (simp add: invoke_patched)
  have first: "\<forall>e w1.
      fn None args w = (Throw e, w1) \<longrightarrow>
      invoke obj ?tbl methodName args w = (Throw e, w1)"
    by (simp add: invoke_patched)
  from p others both second first show ?thesis by blast
qed

text \<open>
  The theorem on a patched \<^verbatim>\<open>markAsDirty\<close>: the callback runs first, without a
  \<^verbatim>\<open>this\<close>, then the original method with the object as its \<^verbatim>\<open>this\<close>, both on the
  arguments of the call.
\<close>

theorem patchObjectMethodWith_wraps_witness:
  "(case patchObjectMethodWith 0 [''markAsDirty'' \<mapsto> logged ''original''] ''markAsDirty''
           (logged ''fn'') of
      Inl e \<Rightarrow> (Throw e, [])
    | Inr tbl \<Rightarrow> invoke 0 tbl ''markAsDirty'' [True] []) =
     (Return None, [(''fn'', None, [True]), (''original'', Some 0, [True])])"
proof -
  have m: "[''markAsDirty'' \<mapsto> logged ''original''] ''markAsDirty'' = Some (logged ''original'')"
    by simp
  from patchObjectMethodWith_wraps [where methods = "[''markAsDirty'' \<mapsto> logged ''original'']"
      and methodName = "''markAsDirty''" and original = "logged ''original''" and obj = 0
      and fn = "logged ''fn''" and args = "[True]" and w = "[]", OF m]
  obtain tbl where
    p: "patchObjectMethodWith 0 [''markAsDirty'' \<mapsto> logged ''original''] ''markAsDirty''
          (logged ''fn'') = Inr tbl"
    and i: "\<forall>r1 w1 r2 w2.
              logged ''fn'' None [True] [] = (Return r1, w1) \<and>
              logged ''original'' (Some 0) [True] w1 = (Return r2, w2) \<longrightarrow>
              invoke 0 tbl ''markAsDirty'' [True] [] = (Return None, w2)"
    by blast
  have f: "logged ''fn'' None [True] [] = (Return None, [(''fn'', None, [True])])"
    and g: "logged ''original'' (Some 0) [True] [(''fn'', None, [True])] =
      (Return None, [(''fn'', None, [True]), (''original'', Some 0, [True])])"
    by (simp_all add: logged_def)
  from i f g have "invoke 0 tbl ''markAsDirty'' [True] [] =
       (Return None, [(''fn'', None, [True]), (''original'', Some 0, [True])])"
    by blast
  with p show ?thesis by simp
qed

subsection \<open>The deferred synchronisation\<close>

lemma sync_fields:
  "destroyed (subscribeTo name w) = destroyed w"
  "destroyed (patch t m w) = destroyed w"
  "ngControl (subscribeTo name w) = ngControl w"
  "ngControl (patch t m w) = ngControl w"
  "has_control (subscribeTo name w) = has_control w"
  "has_control (patch t m w) = has_control w"
  by (simp_all add: subscribeTo_def patch_def has_control_def)

lemma callback_without_control:
  "\<not> has_control w \<Longrightarrow> syncOuterAndInnerControls_callback w = w"
  by (simp add: syncOuterAndInnerControls_callback_def)

lemma callback_with_control:
  "has_control w \<Longrightarrow>
   patched (syncOuterAndInnerControls_callback w) =
     patched w @ [(Outer, ''markAsTouched''), (Outer, ''markAsUntouched''), (Inner, ''markAsTouched''),
       (Outer, ''markAsDirty''), (Outer, ''markAsPristine''), (Inner, ''markAsDirty''),
       (Outer, ''markAsPending'')] \<and>
   subscriptions (syncOuterAndInnerControls_callback w) =
     subscriptions w @
       (if (case ngControl w of None \<Rightarrow> False | Some n \<Rightarrow> statusChanges n)
        then [''syncOuterToInnerErrors$''] else []) @
       [''syncOuterToInnerTouched$'', ''syncOuterToInnerDirty$''] \<and>
   destroyed (syncOuterAndInnerControls_callback w) = destroyed w"
  by (simp add: syncOuterAndInnerControls_callback_def syncOuterToInnerPending_def
      syncOuterAndInnerDirty_def syncOuterAndInnerTouched_def syncOuterToInnerErrors_def
      extractMethodsIntoObservable_def sync_fields has_control_def subscribeTo_def patch_def
      split: option.splits)

text \<open>
  C8 as stated fails: an instance with an outer control bound is constructed and
  destroyed before the next turn; destroying it ends its subscriptions and no method is
  patched yet; the callback of \<^verbatim>\<open>setTimeout\<close> then runs all the same, subscribes three
  streams and patches seven methods, four of them on the outer control.
\<close>

theorem deferred_sync_counterexample:
  "destroyed (next_turn (ngOnDestroy (constructed (Some \<lparr>control = True, statusChanges = True\<rparr>)))) \<and>
   subscriptions (ngOnDestroy (constructed (Some \<lparr>control = True, statusChanges = True\<rparr>))) = [] \<and>
   patched (ngOnDestroy (constructed (Some \<lparr>control = True, statusChanges = True\<rparr>))) = [] \<and>
   subscriptions (next_turn (ngOnDestroy (constructed (Some \<lparr>control = True, statusChanges = True\<rparr>)))) =
     [''syncOuterToInnerErrors$'', ''syncOuterToInnerTouched$'', ''syncOuterToInnerDirty$''] \<and>
   patched (next_turn (ngOnDestroy (constructed (Some \<lparr>control = True, statusChanges = True\<rparr>)))) =
     [(Outer, ''markAsTouched''), (Outer, ''markAsUntouched''), (Inner, ''markAsTouched''),
      (Outer, ''markAsDirty''), (Outer, ''markAsPristine''), (Inner, ''markAsDirty''),
      (Outer, ''markAsPending'')]"
  by (simp add: next_turn_def ngOnDestroy_def constructed_def syncOuterAndInnerControls_def
      syncOuterAndInnerControls_callback_def syncOuterToInnerPending_def
      syncOuterAndInnerDirty_def syncOuterAndInnerTouched_def syncOuterToInnerErrors_def
      extractMethodsIntoObservable_def has_control_def subscribeTo_def patch_def)

text \<open>
  C8, amended. The callback given to \<^verbatim>\<open>setTimeout\<close> is not cancelled when the instance
  is destroyed: on the next turn it runs on the destroyed instance. What it checks is that
  \<^verbatim>\<open>ngControl\<close> and its \<^verbatim>\<open>control\<close> are there. If they are, it patches the methods of
  the outer and the inner control and subscribes the synchronisation streams; if not, it
  does nothing. What it does is the same whether or not the instance is destroyed.
\<close>

theorem deferred_sync_checks_binding_only:
  "next_turn (ngOnDestroy (constructed n)) =
     syncOuterAndInnerControls_callback (ngOnDestroy (constructed n)\<lparr>timers := 0\<rparr>) \<and>
   (has_control w \<longrightarrow>
      patched (syncOuterAndInnerControls_callback w) =
        patched w @ [(Outer, ''markAsTouched''), (Outer, ''markAsUntouched''),
          (Inner, ''markAsTouched''), (Outer, ''markAsDirty''), (Outer, ''markAsPristine''),
          (Inner, ''markAsDirty''), (Outer, ''markAsPending'')] \<and>
      subscriptions (syncOuterAndInnerControls_callback w) =
        subscriptions w @
          (if (case ngControl w of None \<Rightarrow> False | Some n \<Rightarrow> statusChanges n)
           then [''syncOuterToInnerErrors$''] else []) @
          [''syncOuterToInnerTouched$'', ''syncOuterToInnerDirty$'']) \<and>
   (\<not> has_control w \<longrightarrow> syncOuterAndInnerControls_callback w = w) \<and>
   syncOuterAndInnerControls_callback (w\<lparr>destroyed := d\<rparr>) =
     (syncOuterAndInnerControls_callback w)\<lparr>destroyed := d\<rparr>"
proof -
  have turn: "next_turn (ngOnDestroy (constructed n)) =
     syncOuterAndInnerControls_callback (ngOnDestroy (constructed n)\<lparr>timers := 0\<rparr>)"
    by (simp add: next_turn_def ngOnDestroy_def constructed_def syncOuterAndInnerControls_def)
  have indep: "syncOuterAndInnerControls_callback (w\<lparr>destroyed := d\<rparr>) =
     (syncOuterAndInnerControls_callback w)\<lparr>destroyed := d\<rparr>"
    by (simp add: syncOuterAndInnerControls_callback_def syncOuterToInnerPending_def
      syncOuterAndInnerDirty_def syncOuterAndInnerTouched_def syncOuterToInnerErrors_def
      extractMethodsIntoObservable_def has_control_def subscribeTo_def patch_def
      split: option.splits)
  from turn indep callback_with_control [of w] callback_without_control [of w]
  show ?thesis by simp
qed

text \<open>
  The theorem on three instances destroyed before the next turn: one bound to an outer
  control, one with no \<^verbatim>\<open>ngControl\<close>, one whose \<^verbatim>\<open>control\<close> is not resolved.
\<close>

theorem deferred_sync_checks_binding_only_witness:
  "patched (next_turn (ngOnDestroy (constructed (Some \<lparr>control = True, statusChanges = False\<rparr>)))) =
     [(Outer, ''markAsTouched''), (Outer, ''markAsUntouched''), (Inner, ''markAsTouched''),
      (Outer, ''markAsDirty''), (Outer, ''markAsPristine''), (Inner, ''markAsDirty''),
      (Outer, ''markAsPending'')] \<and>
   next_turn (ngOnDestroy (constructed None)) = ngOnDestroy (constructed None)\<lparr>timers := 0\<rparr> \<and>
   next_turn (ngOnDestroy (constructed (Some \<lparr>control = False, statusChanges = True\<rparr>))) =
     ngOnDestroy (constructed (Some \<lparr>control = False, statusChanges = True\<rparr>))\<lparr>timers := 0\<rparr>"
proof -
  let ?w = "\<lambda>n. ngOnDestroy (constructed n)\<lparr>timers := 0\<rparr>"
  have h: "has_control (?w (Some \<lparr>control = True, statusChanges = False\<rparr>))"
    "\<not> has_control (?w None)"
    "\<not> has_control (?w (Some \<lparr>control = False, statusChanges = True\<rparr>))"
    and p: "patched (?w (Some \<lparr>control = True, statusChanges = False\<rparr>)) = []"
    by (simp_all add: has_control_def ngOnDestroy_def constructed_def syncOuterAndInnerControls_def)
  from deferred_sync_checks_binding_only
    [of "Some \<lparr>control = True, statusChanges = False\<rparr>"
        "?w (Some \<lparr>control = True, statusChanges = False\<rparr>)" True] h(1) p
  have 1: "patched (next_turn (ngOnDestroy (constructed (Some \<lparr>control = True, statusChanges = False\<rparr>)))) =
     [(Outer, ''markAsTouched''), (Outer, ''markAsUntouched''), (Inner, ''markAsTouched''),
      (Outer, ''markAsDirty''), (Outer, ''markAsPristine''), (Inner, ''markAsDirty''),
      (Outer, ''markAsPending'')]"
    by simp
  from deferred_sync_checks_binding_only [of None "?w None" True] h(2)
  have 2: "next_turn (ngOnDestroy (constructed None)) = ?w None"
    by simp
  from deferred_sync_checks_binding_only
    [of "Some \<lparr>control = False, statusChanges = True\<rparr>"
        "?w (Some \<lparr>control = False, statusChanges = True\<rparr>)" True] h(3)
  have 3: "next_turn (ngOnDestroy (constructed (Some \<lparr>control = False, statusChanges = True\<rparr>))) =
     ?w (Some \<lparr>control = False, statusChanges = True\<rparr>)"
    by simp
  from 1 2 3 show ?thesis by simp
qed

subsection \<open>Outer errors on the inner control\<close>

lemma tap_validator:
  "validator (syncOuterToInnerErrors_tap e fc) = Some (syncErrorsValidator e)"
  by (simp add: syncOuterToInnerErrors_tap_def updateValueAndValidity_def setValidators_def)

lemma statusChanges_run_snoc:
  "statusChanges_run (es @ [e]) fc = syncOuterToInnerErrors_tap e (statusChanges_run es fc)"
  by (simp add: statusChanges_run_def)

text \<open>
  C10. At each status change of the outer control that \<^verbatim>\<open>syncOuterToInnerErrors\<close>
  receives, with \<open>e\<close> the errors of the outer control then: the validator of the inner
  control becomes \<^verbatim>\<open>syncErrorsValidator(e)\<close>, whatever validator it had; that validator
  returns \<open>e\<close> on every argument; and the errors of the inner control, unless it is
  disabled, become \<open>e\<close>. After any run of status changes the validator is the one of the
  last errors received, and validating the inner control again gives these errors.
\<close>

theorem outer_errors_replace_validator:
  "validator (syncOuterToInnerErrors_tap e fc) = Some (syncErrorsValidator e) \<and>
   (\<forall>t. syncErrorsValidator e t = e) \<and>
   (\<not> disabled fc \<longrightarrow> errors (syncOuterToInnerErrors_tap e fc) = e) \<and>
   validator (statusChanges_run (es @ [e]) fc) = Some (syncErrorsValidator e) \<and>
   (\<not> disabled fc \<longrightarrow>
      errors (updateValueAndValidity (statusChanges_run (es @ [e]) fc)) = e)"
proof -
  have d: "disabled (statusChanges_run es fc) = disabled fc" for es
    by (induction es arbitrary: fc)
      (simp_all add: statusChanges_run_def syncOuterToInnerErrors_tap_def
        updateValueAndValidity_def setValidators_def)
  have v: "validator (statusChanges_run (es @ [e]) fc) = Some (syncErrorsValidator e)"
    by (simp add: statusChanges_run_snoc tap_validator)
  have "\<not> disabled fc \<longrightarrow>
      errors (updateValueAndValidity (statusChanges_run (es @ [e]) fc)) = e"
    using v d [of "es @ [e]"]
    by (simp add: updateValueAndValidity_def syncErrorsValidator_def)
  moreover have "\<not> disabled fc \<longrightarrow> errors (syncOuterToInnerErrors_tap e fc) = e"
    by (simp add: syncOuterToInnerErrors_tap_def updateValueAndValidity_def setValidators_def
        syncErrorsValidator_def)
  moreover have "\<forall>t. syncErrorsValidator e t = e"
    by (simp add: syncErrorsValidator_def)
  ultimately show ?thesis using v tap_validator [of e fc] by simp
qed

text \<open>
  The theorem on an inner control that holds a text and was given
  \<^verbatim>\<open>Validators.required\<close>: after the outer control reports no error and then
  \<^verbatim>\<open>required\<close>, the inner control has the error \<^verbatim>\<open>required\<close>.
\<close>

theorem outer_errors_replace_validator_witness:
  "errors (statusChanges_run [None, Some ''required'']
     \<lparr>held = Str ''x'', validator = Some required, errors = None, disabled = False\<rparr>) =
     Some ''required'' \<and>
   validator (statusChanges_run [None, Some ''required'']
     \<lparr>held = Str ''x'', validator = Some required, errors = None, disabled = False\<rparr>) =
     Some (syncErrorsValidator (Some ''required''))"
  using outer_errors_replace_validator [of "Some ''required''"
    "statusChanges_run [None]
       \<lparr>held = Str ''x'', validator = Some required, errors = None, disabled = False\<rparr>" "[]"]
    outer_errors_replace_validator [of "Some ''required''"
    "\<lparr>held = Str ''x'', validator = Some required, errors = None, disabled = False\<rparr>" "[None]"]
  by (simp add: statusChanges_run_def syncOuterToInnerErrors_tap_def
        updateValueAndValidity_def setValidators_def)

end
